theory Spec2Isabelle
  imports Main "HOL-Library.Word"
begin

section \<open>JavaScript strings\<close>

text \<open>
  A JavaScript string is a finite sequence of 16-bit code units. String literals of the
  source are written \<open>js ''...''\<close>.
\<close>

type_synonym code_unit = "16 word"
type_synonym jsstring = "code_unit list"

definition js :: "string \<Rightarrow> jsstring" where
  "js s = map of_char s"

text \<open>\<open>String.prototype.split\<close> with a one-unit separator: never returns the empty list.\<close>

fun split_on :: "code_unit \<Rightarrow> jsstring \<Rightarrow> jsstring list" where
  "split_on sep [] = [[]]"
| "split_on sep (c # cs) =
     (if c = sep then [] # split_on sep cs
      else (case split_on sep cs of p # ps \<Rightarrow> (c # p) # ps | [] \<Rightarrow> [[c]]))"

text \<open>\<open>s.indexOf(p) == 0\<close>: \<open>p\<close> is a prefix of \<open>s\<close>.\<close>

fun starts_with :: "jsstring \<Rightarrow> jsstring \<Rightarrow> bool" where
  "starts_with s [] = True"
| "starts_with [] (p # ps) = False"
| "starts_with (c # cs) (p # ps) = (c = p \<and> starts_with cs ps)"

section \<open>Errors\<close>

text \<open>
  \<open>Error m\<close> is \<open>new Error(m)\<close> thrown by the source; the other three are thrown by the
  host (\<open>JSON.parse\<close>, property access on \<open>null\<close> or assignment to a property of a
  primitive value, \<open>decodeURIComponent\<close>). \<open>OutsideModel\<close> is not an outcome of the
  code: it marks the inputs whose outcome this development does not determine. They
  are: a JSON text holding a number that JavaScript would print otherwise than it is
  written there (\<open>1.0\<close>, \<open>1e3\<close>, \<open>-0\<close>, more than 15 digits); a property operation on
  an array; a property read on a number, string or boolean, whose result depends on
  the members of the host's prototype objects. The statements below that fix the
  result of an operation exclude these inputs.
\<close>

datatype error = Error jsstring | SyntaxError | TypeError | URIError | OutsideModel

section \<open>JSON values and objects\<close>

text \<open>
  The code under study never computes with numbers. A number is held as the decimal
  text of an integer of at most 15 digits, which is what both \<open>JSON.parse\<close> reads it
  from and \<open>JSON.stringify\<close> prints it as (\<open>canonical_number\<close> below).
\<close>

datatype json =
    JNull
  | JBool bool
  | JNum jsstring
  | JStr jsstring
  | JArr "json list"
  | JObj "(jsstring \<times> json) list"

text \<open>
  What reading a property can give: \<open>undefined\<close>, a JSON value, or a member inherited
  from \<open>Object.prototype\<close> (a function, or the prototype itself for \<open>__proto__\<close>).
\<close>

datatype jsval = Undefined | Value json | Inherited jsstring

definition object_prototype_names :: "jsstring list" where
  "object_prototype_names = map js
     [''constructor'', ''__defineGetter__'', ''__defineSetter__'', ''hasOwnProperty'',
      ''__lookupGetter__'', ''__lookupSetter__'', ''isPrototypeOf'', ''propertyIsEnumerable'',
      ''toString'', ''valueOf'', ''__proto__'', ''toLocaleString'']"

subsection \<open>Property order\<close>

text \<open>
  An object is the list of its own properties in enumeration order: array indices
  (canonical decimal strings below \<open>2^32 - 1\<close>) ascending, then the other keys in
  creation order.
\<close>

definition is_digit :: "code_unit \<Rightarrow> bool" where
  "is_digit c = (0x30 \<le> c \<and> c \<le> 0x39)"

definition digits_val :: "jsstring \<Rightarrow> nat" where
  "digits_val s = foldl (\<lambda>n c. 10 * n + (unat c - 48)) 0 s"

definition is_array_index :: "jsstring \<Rightarrow> bool" where
  "is_array_index k =
     (k \<noteq> [] \<and> list_all is_digit k \<and> (if hd k = 0x30 then length k = 1 else True)
      \<and> length k \<le> 10 \<and> digits_val k < 4294967295)"

fun insert_index :: "jsstring \<Rightarrow> json \<Rightarrow> (jsstring \<times> json) list \<Rightarrow> (jsstring \<times> json) list" where
  "insert_index k v [] = [(k, v)]"
| "insert_index k v ((k', v') # ps) =
     (if is_array_index k' \<and> digits_val k' < digits_val k
      then (k', v') # insert_index k v ps
      else (k, v) # (k', v') # ps)"

text \<open>
  \<open>CreateDataProperty\<close>: an existing key keeps its place, a new one goes where the
  enumeration order puts it. An object holds a key once; the update is written so that
  it covers every entry of the key.
\<close>

definition obj_define :: "(jsstring \<times> json) list \<Rightarrow> jsstring \<Rightarrow> json \<Rightarrow> (jsstring \<times> json) list" where
  "obj_define ps k v =
     (if k \<in> fst ` set ps then map (\<lambda>(k', v'). if k' = k then (k', v) else (k', v')) ps
      else if is_array_index k then insert_index k v ps
      else ps @ [(k, v)])"

text \<open>
  \<open>obj[k] = v\<close> with a string \<open>v\<close>. The inherited \<open>__proto__\<close> is an accessor whose setter
  ignores a string; every other inherited member is a writable data property.
\<close>

definition obj_assign :: "(jsstring \<times> json) list \<Rightarrow> jsstring \<Rightarrow> jsstring \<Rightarrow> (jsstring \<times> json) list" where
  "obj_assign ps k v =
     (if k = js ''__proto__'' \<and> k \<notin> fst ` set ps then ps else obj_define ps k (JStr v))"

text \<open>\<open>delete obj[k]\<close>.\<close>

definition obj_delete :: "(jsstring \<times> json) list \<Rightarrow> jsstring \<Rightarrow> (jsstring \<times> json) list" where
  "obj_delete ps k = filter (\<lambda>(k', v'). k' \<noteq> k) ps"

text \<open>\<open>obj[k]\<close>.\<close>

definition obj_get :: "(jsstring \<times> json) list \<Rightarrow> jsstring \<Rightarrow> jsval" where
  "obj_get ps k =
     (case map_of ps k of
        Some v \<Rightarrow> Value v
      | None \<Rightarrow> if k \<in> set object_prototype_names then Inherited k else Undefined)"

section \<open>\<open>JSON.stringify\<close>\<close>

definition hex_digit :: "nat \<Rightarrow> code_unit" where
  "hex_digit n = (if n < 10 then of_nat (48 + n) else of_nat (87 + n))"

definition unicode_escape :: "code_unit \<Rightarrow> jsstring" where
  "unicode_escape c =
     [0x5C, 0x75, hex_digit (unat c div 4096), hex_digit (unat c div 256 mod 16),
      hex_digit (unat c div 16 mod 16), hex_digit (unat c mod 16)]"

definition is_high_surrogate :: "code_unit \<Rightarrow> bool" where
  "is_high_surrogate c = (0xD800 \<le> c \<and> c \<le> 0xDBFF)"

definition is_low_surrogate :: "code_unit \<Rightarrow> bool" where
  "is_low_surrogate c = (0xDC00 \<le> c \<and> c \<le> 0xDFFF)"

text \<open>One code unit that is not half of a surrogate pair.\<close>

definition quote_unit :: "code_unit \<Rightarrow> jsstring" where
  "quote_unit c =
     (if c = 0x08 then [0x5C, 0x62]
      else if c = 0x09 then [0x5C, 0x74]
      else if c = 0x0A then [0x5C, 0x6E]
      else if c = 0x0C then [0x5C, 0x66]
      else if c = 0x0D then [0x5C, 0x72]
      else if c = 0x22 then [0x5C, 0x22]
      else if c = 0x5C then [0x5C, 0x5C]
      else if c < 0x20 \<or> is_high_surrogate c \<or> is_low_surrogate c then unicode_escape c
      else [c])"

fun quote_units :: "jsstring \<Rightarrow> jsstring" where
  "quote_units [] = []"
| "quote_units [c] = quote_unit c"
| "quote_units (c # d # cs) =
     (if is_high_surrogate c \<and> is_low_surrogate d then c # d # quote_units cs
      else quote_unit c @ quote_units (d # cs))"

definition QuoteJSONString :: "jsstring \<Rightarrow> jsstring" where
  "QuoteJSONString s = 0x22 # quote_units s @ [0x22]"

fun JSON_stringify :: "json \<Rightarrow> jsstring"
  and stringify_elems :: "json list \<Rightarrow> jsstring"
  and stringify_members :: "(jsstring \<times> json) list \<Rightarrow> jsstring" where
  "JSON_stringify JNull = js ''null''"
| "JSON_stringify (JBool b) = (if b then js ''true'' else js ''false'')"
| "JSON_stringify (JNum n) = n"
| "JSON_stringify (JStr s) = QuoteJSONString s"
| "JSON_stringify (JArr vs) = 0x5B # stringify_elems vs @ [0x5D]"
| "JSON_stringify (JObj ps) = 0x7B # stringify_members ps @ [0x7D]"
| "stringify_elems [] = []"
| "stringify_elems [v] = JSON_stringify v"
| "stringify_elems (v # w # vs) = JSON_stringify v @ 0x2C # stringify_elems (w # vs)"
| "stringify_members [] = []"
| "stringify_members [(k, v)] = QuoteJSONString k @ 0x3A # JSON_stringify v"
| "stringify_members ((k, v) # p # ps) =
     QuoteJSONString k @ 0x3A # JSON_stringify v @ 0x2C # stringify_members (p # ps)"

section \<open>\<open>JSON.parse\<close>\<close>

definition is_ws :: "code_unit \<Rightarrow> bool" where
  "is_ws c = (c = 0x20 \<or> c = 0x09 \<or> c = 0x0A \<or> c = 0x0D)"

definition skip_ws :: "jsstring \<Rightarrow> jsstring" where
  "skip_ws s = dropWhile is_ws s"

definition hex_val :: "code_unit \<Rightarrow> nat option" where
  "hex_val c =
     (if 0x30 \<le> c \<and> c \<le> 0x39 then Some (unat c - 48)
      else if 0x61 \<le> c \<and> c \<le> 0x66 then Some (unat c - 87)
      else if 0x41 \<le> c \<and> c \<le> 0x46 then Some (unat c - 55)
      else None)"

definition hex4 :: "code_unit \<Rightarrow> code_unit \<Rightarrow> code_unit \<Rightarrow> code_unit \<Rightarrow> code_unit option" where
  "hex4 a b c d =
     (case (hex_val a, hex_val b, hex_val c, hex_val d) of
        (Some x, Some y, Some z, Some u) \<Rightarrow> Some (of_nat (4096 * x + 256 * y + 16 * z + u))
      | _ \<Rightarrow> None)"

definition unescape :: "code_unit \<Rightarrow> code_unit option" where
  "unescape e =
     (if e = 0x22 then Some 0x22
      else if e = 0x5C then Some 0x5C
      else if e = 0x2F then Some 0x2F
      else if e = 0x62 then Some 0x08
      else if e = 0x66 then Some 0x0C
      else if e = 0x6E then Some 0x0A
      else if e = 0x72 then Some 0x0D
      else if e = 0x74 then Some 0x09
      else None)"

definition cons_result :: "code_unit \<Rightarrow> (jsstring \<times> jsstring) option \<Rightarrow> (jsstring \<times> jsstring) option" where
  "cons_result c r = (case r of None \<Rightarrow> None | Some (s, rest) \<Rightarrow> Some (c # s, rest))"

text \<open>The characters of a string literal after its opening quote, and what follows the closing one.\<close>

fun parse_string :: "jsstring \<Rightarrow> (jsstring \<times> jsstring) option" where
  "parse_string [] = None"
| "parse_string (c # cs) =
     (if c = 0x22 then Some ([], cs)
      else if c = 0x5C then
        (case cs of
           [] \<Rightarrow> None
         | e # r \<Rightarrow>
             if e = 0x75 then
               (case r of
                  h1 # h2 # h3 # h4 # r' \<Rightarrow>
                    (case hex4 h1 h2 h3 h4 of
                       None \<Rightarrow> None
                     | Some u \<Rightarrow> cons_result u (parse_string r'))
                | _ \<Rightarrow> None)
             else
               (case unescape e of
                  None \<Rightarrow> None
                | Some u \<Rightarrow> cons_result u (parse_string r)))
      else if c < 0x20 then None
      else cons_result c (parse_string cs))"

definition parse_frac :: "jsstring \<Rightarrow> (jsstring \<times> jsstring) option" where
  "parse_frac s =
     (case s of
        [] \<Rightarrow> Some ([], s)
      | c # r \<Rightarrow>
          if c = 0x2E then
            (if takeWhile is_digit r = [] then None
             else Some (c # takeWhile is_digit r, dropWhile is_digit r))
          else Some ([], s))"

definition parse_exp :: "jsstring \<Rightarrow> (jsstring \<times> jsstring) option" where
  "parse_exp s =
     (case s of
        [] \<Rightarrow> Some ([], s)
      | c # r \<Rightarrow>
          if c = 0x65 \<or> c = 0x45 then
            (let sg = (case r of [] \<Rightarrow> [] | d # r2 \<Rightarrow> if d = 0x2B \<or> d = 0x2D then [d] else []);
                 r' = drop (length sg) r
             in if takeWhile is_digit r' = [] then None
                else Some (c # sg @ takeWhile is_digit r', dropWhile is_digit r'))
          else Some ([], s))"

definition parse_number :: "jsstring \<Rightarrow> (jsstring \<times> jsstring) option" where
  "parse_number s =
     (let sg = (case s of [] \<Rightarrow> [] | c # r \<Rightarrow> if c = 0x2D then [c] else []);
          s1 = drop (length sg) s;
          ip = takeWhile is_digit s1
      in if ip = [] \<or> (hd ip = 0x30 \<and> 1 < length ip) then None
         else (case parse_frac (dropWhile is_digit s1) of
                 None \<Rightarrow> None
               | Some (fp, s2) \<Rightarrow>
                   (case parse_exp s2 of
                      None \<Rightarrow> None
                    | Some (ep, s3) \<Rightarrow> Some (sg @ ip @ fp @ ep, s3))))"

text \<open>
  Recursive descent. The first argument bounds the number of nested calls; each call
  consumes at least one code unit before the next, so the length of the text is enough
  (\<open>JSON_parse\<close> below). The input of \<open>parse_value\<close>, \<open>parse_elems\<close> and \<open>parse_members\<close>
  starts at a token (white space already skipped).
\<close>

fun parse_value :: "nat \<Rightarrow> jsstring \<Rightarrow> (json \<times> jsstring) option"
  and parse_elems :: "nat \<Rightarrow> json list \<Rightarrow> jsstring \<Rightarrow> (json \<times> jsstring) option"
  and parse_members :: "nat \<Rightarrow> (jsstring \<times> json) list \<Rightarrow> jsstring \<Rightarrow> (json \<times> jsstring) option" where
  "parse_value 0 s = None"
| "parse_value (Suc n) [] = None"
| "parse_value (Suc n) (c # cs) =
     (if c = 0x7B then
        (case skip_ws cs of
           [] \<Rightarrow> None
         | d # r \<Rightarrow> if d = 0x7D then Some (JObj [], r) else parse_members n [] (d # r))
      else if c = 0x5B then
        (case skip_ws cs of
           [] \<Rightarrow> None
         | d # r \<Rightarrow> if d = 0x5D then Some (JArr [], r) else parse_elems n [] (d # r))
      else if c = 0x22 then
        (case parse_string cs of None \<Rightarrow> None | Some (s, r) \<Rightarrow> Some (JStr s, r))
      else if starts_with (c # cs) (js ''true'') then Some (JBool True, drop 4 (c # cs))
      else if starts_with (c # cs) (js ''false'') then Some (JBool False, drop 5 (c # cs))
      else if starts_with (c # cs) (js ''null'') then Some (JNull, drop 4 (c # cs))
      else (case parse_number (c # cs) of None \<Rightarrow> None | Some (n, r) \<Rightarrow> Some (JNum n, r)))"
| "parse_elems 0 acc s = None"
| "parse_elems (Suc n) acc s =
     (case parse_value n s of
        None \<Rightarrow> None
      | Some (v, r) \<Rightarrow>
          (case skip_ws r of
             [] \<Rightarrow> None
           | d # r' \<Rightarrow>
               if d = 0x2C then parse_elems n (acc @ [v]) (skip_ws r')
               else if d = 0x5D then Some (JArr (acc @ [v]), r')
               else None))"
| "parse_members 0 acc s = None"
| "parse_members (Suc n) acc [] = None"
| "parse_members (Suc n) acc (q # cs) =
     (if q \<noteq> 0x22 then None
      else (case parse_string cs of
              None \<Rightarrow> None
            | Some (k, r) \<Rightarrow>
                (case skip_ws r of
                   [] \<Rightarrow> None
                 | col # r1 \<Rightarrow>
                     if col \<noteq> 0x3A then None
                     else (case parse_value n (skip_ws r1) of
                             None \<Rightarrow> None
                           | Some (v, r2) \<Rightarrow>
                               (case skip_ws r2 of
                                  [] \<Rightarrow> None
                                | d # r3 \<Rightarrow>
                                    if d = 0x2C then parse_members n (obj_define acc k v) (skip_ws r3)
                                    else if d = 0x7D then Some (JObj (obj_define acc k v), r3)
                                    else None)))))"

text \<open>
  The numbers whose text \<open>JSON.stringify\<close> prints back unchanged: an optional minus
  sign and 1 to 15 digits, without leading zero, fraction or exponent, and not \<open>-0\<close>.
\<close>

definition canonical_number :: "jsstring \<Rightarrow> bool" where
  "canonical_number n =
     (case (case n of [] \<Rightarrow> [] | c # r \<Rightarrow> if c = 0x2D then r else n) of
        [] \<Rightarrow> False
      | d # ds \<Rightarrow>
          list_all is_digit (d # ds) \<and> length (d # ds) \<le> 15
          \<and> (if d = 0x30 then n = [0x30] else True))"

fun numbers_ok :: "json \<Rightarrow> bool"
  and numbers_ok_elems :: "json list \<Rightarrow> bool"
  and numbers_ok_members :: "(jsstring \<times> json) list \<Rightarrow> bool" where
  "numbers_ok JNull = True"
| "numbers_ok (JBool b) = True"
| "numbers_ok (JNum n) = canonical_number n"
| "numbers_ok (JStr s) = True"
| "numbers_ok (JArr vs) = numbers_ok_elems vs"
| "numbers_ok (JObj ps) = numbers_ok_members ps"
| "numbers_ok_elems [] = True"
| "numbers_ok_elems (v # vs) = (numbers_ok v \<and> numbers_ok_elems vs)"
| "numbers_ok_members [] = True"
| "numbers_ok_members ((k, v) # ps) = (numbers_ok v \<and> numbers_ok_members ps)"

text \<open>
  The text must be one JSON value between optional white space. A value read that
  holds a number outside \<open>canonical_number\<close> is left undetermined.
\<close>

definition JSON_parse :: "jsstring \<Rightarrow> error + json" where
  "JSON_parse text =
     (case parse_value (Suc (length text)) (skip_ws text) of
        None \<Rightarrow> Inl SyntaxError
      | Some (v, r) \<Rightarrow>
          if skip_ws r \<noteq> [] then Inl SyntaxError
          else if numbers_ok v then Inr v
          else Inl OutsideModel)"

text \<open>
  The bound \<open>m\<close> is enough for a parser when every result it finds with \<open>m\<close> consumes
  input and is found with every bound from the number of code units consumed on.
\<close>

definition enough :: "(nat \<Rightarrow> jsstring \<Rightarrow> (json \<times> jsstring) option) \<Rightarrow> nat \<Rightarrow> bool" where
  "enough p m =
     (\<forall>s v r. p m s = Some (v, r) \<longrightarrow>
        length r < length s \<and> (\<forall>n. length s - length r \<le> n \<longrightarrow> p n s = Some (v, r)))"

section \<open>Host environment\<close>

subsection \<open>\<open>decodeURIComponent\<close>\<close>

text \<open>
  The \<open>Decode\<close> operation of the language specification with an empty reserved set, by
  index \<open>k\<close> into the string: a \<open>%XX\<close> escape below 128 is that code unit, a longer
  UTF-8 sequence is its code point in UTF-16, anything malformed throws \<open>URIError\<close>.
\<close>

definition percent_octet :: "jsstring \<Rightarrow> nat \<Rightarrow> nat option" where
  "percent_octet s k =
     (if length s \<le> k + 2 \<or> s ! k \<noteq> 0x25 then None
      else (case (hex_val (s ! (k + 1)), hex_val (s ! (k + 2))) of
              (Some a, Some b) \<Rightarrow> Some (16 * a + b)
            | _ \<Rightarrow> None))"

primrec continuation_octets :: "jsstring \<Rightarrow> nat \<Rightarrow> nat \<Rightarrow> nat list option" where
  "continuation_octets s k 0 = Some []"
| "continuation_octets s k (Suc m) =
     (case percent_octet s k of
        None \<Rightarrow> None
      | Some b \<Rightarrow>
          if b div 64 \<noteq> 2 then None
          else (case continuation_octets s (k + 3) m of
                  None \<Rightarrow> None
                | Some bs \<Rightarrow> Some (b # bs)))"

text \<open>The number of leading 1 bits of an octet of at least 128 (5 stands for "more than 4").\<close>

definition utf8_length :: "nat \<Rightarrow> nat" where
  "utf8_length b =
     (if b < 0xC0 then 1 else if b < 0xE0 then 2 else if b < 0xF0 then 3
      else if b < 0xF8 then 4 else 5)"

definition utf8_code_point :: "nat \<Rightarrow> nat list \<Rightarrow> nat option" where
  "utf8_code_point b bs =
     (case bs of
        [c1] \<Rightarrow>
          if b mod 32 * 64 + c1 mod 64 < 0x80 then None
          else Some (b mod 32 * 64 + c1 mod 64)
      | [c1, c2] \<Rightarrow>
          if b mod 16 * 4096 + c1 mod 64 * 64 + c2 mod 64 < 0x800
             \<or> (0xD800 \<le> b mod 16 * 4096 + c1 mod 64 * 64 + c2 mod 64
                 \<and> b mod 16 * 4096 + c1 mod 64 * 64 + c2 mod 64 \<le> 0xDFFF)
          then None
          else Some (b mod 16 * 4096 + c1 mod 64 * 64 + c2 mod 64)
      | [c1, c2, c3] \<Rightarrow>
          if b mod 8 * 262144 + c1 mod 64 * 4096 + c2 mod 64 * 64 + c3 mod 64 < 0x10000
             \<or> 0x10FFFF < b mod 8 * 262144 + c1 mod 64 * 4096 + c2 mod 64 * 64 + c3 mod 64
          then None
          else Some (b mod 8 * 262144 + c1 mod 64 * 4096 + c2 mod 64 * 64 + c3 mod 64)
      | _ \<Rightarrow> None)"

definition utf16_encode :: "nat \<Rightarrow> jsstring" where
  "utf16_encode cp =
     (if cp < 0x10000 then [of_nat cp]
      else [of_nat (0xD800 + (cp - 0x10000) div 1024), of_nat (0xDC00 + (cp - 0x10000) mod 1024)])"

definition prepend :: "jsstring \<Rightarrow> error + jsstring \<Rightarrow> error + jsstring" where
  "prepend x r = (case r of Inl e \<Rightarrow> Inl e | Inr y \<Rightarrow> Inr (x @ y))"

function Decode :: "jsstring \<Rightarrow> nat \<Rightarrow> error + jsstring" where
  "Decode s k =
     (if length s \<le> k then Inr []
      else if s ! k \<noteq> 0x25 then prepend [s ! k] (Decode s (k + 1))
      else (case percent_octet s k of
              None \<Rightarrow> Inl URIError
            | Some b \<Rightarrow>
                if b < 128 then prepend [of_nat b] (Decode s (k + 3))
                else if utf8_length b = 1 \<or> 4 < utf8_length b then Inl URIError
                else (case continuation_octets s (k + 3) (utf8_length b - 1) of
                        None \<Rightarrow> Inl URIError
                      | Some bs \<Rightarrow>
                          (case utf8_code_point b bs of
                             None \<Rightarrow> Inl URIError
                           | Some cp \<Rightarrow>
                               prepend (utf16_encode cp) (Decode s (k + 3 * utf8_length b))))))"
  by pat_completeness auto
termination
  by (relation "measure (\<lambda>(s, k). length s - k)") (auto simp: utf8_length_def split: if_splits)

declare Decode.simps [simp del]

definition decodeURIComponent :: "jsstring \<Rightarrow> error + jsstring" where
  "decodeURIComponent s = Decode s 0"

subsection \<open>\<open>Date.prototype.toUTCString\<close>\<close>

text \<open>Time values are milliseconds since the epoch; beyond \<open>8.64e15\<close> the date is invalid.\<close>

definition two_digits :: "nat \<Rightarrow> jsstring" where
  "two_digits n = [of_nat (48 + n div 10 mod 10), of_nat (48 + n mod 10)]"

definition padded_year :: "nat \<Rightarrow> jsstring" where
  "padded_year y =
     (if 100000 \<le> y then [of_nat (48 + y div 100000 mod 10)] else [])
     @ (if 10000 \<le> y then [of_nat (48 + y div 10000 mod 10)] else [])
     @ two_digits (y div 100) @ two_digits y"

definition year_month_day :: "int \<Rightarrow> int \<times> nat \<times> nat" where
  "year_month_day days =
     (let z = days + 719468;
          era = z div 146097;
          doe = z - era * 146097;
          yoe = (doe - doe div 1460 + doe div 36524 - doe div 146096) div 365;
          doy = doe - (365 * yoe + yoe div 4 - yoe div 100);
          mp = (5 * doy + 2) div 153;
          d = doy - (153 * mp + 2) div 5 + 1;
          m = (if mp < 10 then mp + 3 else mp - 9)
      in (if m \<le> 2 then yoe + era * 400 + 1 else yoe + era * 400, nat m, nat d))"

definition toUTCString :: "int \<Rightarrow> jsstring" where
  "toUTCString t =
     (if 8640000000000000 < \<bar>t\<bar> then js ''Invalid Date''
      else (case year_month_day (t div 86400000) of
              (y, m, d) \<Rightarrow>
                js ([''Sun'', ''Mon'', ''Tue'', ''Wed'', ''Thu'', ''Fri'', ''Sat'']
                      ! nat ((t div 86400000 + 4) mod 7))
                @ js '', '' @ two_digits d @ js '' ''
                @ js ([''Jan'', ''Feb'', ''Mar'', ''Apr'', ''May'', ''Jun'', ''Jul'', ''Aug'',
                       ''Sep'', ''Oct'', ''Nov'', ''Dec''] ! (m - 1))
                @ js '' '' @ (if y < 0 then js ''-'' else []) @ padded_year (nat \<bar>y\<bar>) @ js '' ''
                @ two_digits (nat (t mod 86400000 div 3600000)) @ js '':''
                @ two_digits (nat (t mod 3600000 div 60000)) @ js '':''
                @ two_digits (nat (t mod 60000 div 1000)) @ js '' GMT''))"

subsection \<open>The cookie jar behind \<open>document.cookie\<close>\<close>

text \<open>
  The jar is the list of the page's cookies, oldest first. Reading \<open>document.cookie\<close>
  joins them as \<open>name=value\<close> with \<open>; \<close>. Assigning a string stores the pair before its
  first \<open>;\<close> (RFC 6265, 5.2): name and value are split at the first \<open>=\<close> and trimmed
  of spaces and tabs, a string with no \<open>=\<close> or an empty name is ignored, a cookie of
  the same name is replaced in place. The attributes after the first \<open>;\<close> are not
  interpreted: the code only writes an expiry in the future and the path \<open>/\<close>.
  Size limits and the jar's rejection of control characters are not modelled.
\<close>

type_synonym jar = "(jsstring \<times> jsstring) list"

fun join_cookies :: "jar \<Rightarrow> jsstring" where
  "join_cookies [] = []"
| "join_cookies [(n, v)] = n @ 0x3D # v"
| "join_cookies ((n, v) # c # cs) = n @ 0x3D # v @ js ''; '' @ join_cookies (c # cs)"

definition is_wsp :: "code_unit \<Rightarrow> bool" where
  "is_wsp c = (c = 0x20 \<or> c = 0x09)"

definition trim_wsp :: "jsstring \<Rightarrow> jsstring" where
  "trim_wsp s = rev (dropWhile is_wsp (rev (dropWhile is_wsp s)))"

definition cookie_pair :: "jsstring \<Rightarrow> (jsstring \<times> jsstring) option" where
  "cookie_pair str =
     (let nv = takeWhile (\<lambda>c. c \<noteq> 0x3B) str
      in if 0x3D \<notin> set nv then None
         else if trim_wsp (takeWhile (\<lambda>c. c \<noteq> 0x3D) nv) = [] then None
         else Some (trim_wsp (takeWhile (\<lambda>c. c \<noteq> 0x3D) nv),
                    trim_wsp (drop 1 (dropWhile (\<lambda>c. c \<noteq> 0x3D) nv))))"

definition jar_store :: "jar \<Rightarrow> jsstring \<Rightarrow> jsstring \<Rightarrow> jar" where
  "jar_store j n v =
     (if n \<in> fst ` set j then map (\<lambda>(n', v'). if n' = n then (n', v) else (n', v')) j
      else j @ [(n, v)])"

definition assign_cookie :: "jsstring \<Rightarrow> jar \<Rightarrow> jar" where
  "assign_cookie str j = (case cookie_pair str of None \<Rightarrow> j | Some (n, v) \<Rightarrow> jar_store j n v)"

subsection \<open>The world: native stores, cookie jar, clock, objects\<close>

datatype store_id = Local | Session

text \<open>Every call of a host primitive is recorded, in order.\<close>

datatype event =
    NativeGet store_id jsstring
  | NativeSet store_id jsstring jsstring
  | NativeRemove store_id jsstring
  | CookieGet
  | CookieSet jsstring
  | DateNow
  | MapGet nat jsstring
  | MapSet nat jsstring jsstring
  | MapDelete nat jsstring

text \<open>
  Instances of the two classes live in a heap, addressed by position. A
  \<open>CookieStorage\<close> has the field \<open>STORAGE_NAME\<close>, a \<open>MemoryStorage\<close> the field
  \<open>memStorage\<close> (a \<open>Map\<close>).
\<close>

datatype obj =
    CookieStorage_obj jsstring
  | MemoryStorage_obj "jsstring \<rightharpoonup> jsstring"

record world =
  localStorage :: "jsstring \<rightharpoonup> jsstring"
  sessionStorage :: "jsstring \<rightharpoonup> jsstring"
  cookie_jar :: jar
  clock :: int
  heap :: "obj list"
  CookieStorage_storage :: "nat option"
  MemoryStorage_storage :: "nat option"
  trace :: "event list"

definition log :: "event \<Rightarrow> world \<Rightarrow> world" where
  "log e w = w\<lparr>trace := trace w @ [e]\<rparr>"

definition native :: "store_id \<Rightarrow> world \<Rightarrow> (jsstring \<rightharpoonup> jsstring)" where
  "native i w = (case i of Local \<Rightarrow> localStorage w | Session \<Rightarrow> sessionStorage w)"

definition native_update :: "store_id \<Rightarrow> (jsstring \<rightharpoonup> jsstring) \<Rightarrow> world \<Rightarrow> world" where
  "native_update i m w =
     (case i of Local \<Rightarrow> w\<lparr>localStorage := m\<rparr> | Session \<Rightarrow> w\<lparr>sessionStorage := m\<rparr>)"

text \<open>
  The \<open>Storage\<close> interface of the browser: \<open>getItem\<close> gives \<open>null\<close> for a missing key.
  The stores are maps from strings to strings with no quota.
\<close>

definition native_getItem :: "store_id \<Rightarrow> jsstring \<Rightarrow> world \<Rightarrow> (error + jsstring option) \<times> world" where
  "native_getItem i key w = (Inr (native i w key), log (NativeGet i key) w)"

definition native_setItem :: "store_id \<Rightarrow> jsstring \<Rightarrow> jsstring \<Rightarrow> world \<Rightarrow> (error + unit) \<times> world" where
  "native_setItem i key val w =
     (Inr (), log (NativeSet i key val) (native_update i ((native i w)(key \<mapsto> val)) w))"

definition native_removeItem :: "store_id \<Rightarrow> jsstring \<Rightarrow> world \<Rightarrow> (error + unit) \<times> world" where
  "native_removeItem i key w =
     (Inr (), log (NativeRemove i key) (native_update i ((native i w)(key := None)) w))"

section \<open>The source: \<open>src/clientStorage.ts\<close>\<close>

subsection \<open>\<open>class CookieStorage\<close>\<close>

text \<open>The constructor returns the instance in the static field \<open>storage\<close> when there is one.\<close>

definition new_CookieStorage :: "jsstring \<Rightarrow> world \<Rightarrow> nat \<times> world" where
  "new_CookieStorage cookieName w =
     (case CookieStorage_storage w of
        Some a \<Rightarrow> (a, w)
      | None \<Rightarrow>
          (length (heap w),
           w\<lparr>heap := heap w @ [CookieStorage_obj cookieName],
             CookieStorage_storage := Some (length (heap w))\<rparr>))"

definition getUpdatedTime :: "int \<Rightarrow> world \<Rightarrow> jsstring \<times> world" where
  "getUpdatedTime numDays w = (toUTCString (clock w + numDays * 24 * 60 * 60 * 1000), log DateNow w)"

text \<open>The loop of \<open>getItem\<close> over the pieces of the decoded cookie string.\<close>

fun find_cookie :: "jsstring \<Rightarrow> jsstring list \<Rightarrow> jsstring" where
  "find_cookie name [] = []"
| "find_cookie name (cookie # cookies) =
     (if starts_with (dropWhile (\<lambda>c. c = 0x20) cookie) name
      then drop (length name) (dropWhile (\<lambda>c. c = 0x20) cookie)
      else find_cookie name cookies)"

definition CookieStorage_getItem :: "jsstring \<Rightarrow> world \<Rightarrow> (error + jsstring) \<times> world" where
  "CookieStorage_getItem STORAGE_NAME w =
     (case decodeURIComponent (join_cookies (cookie_jar w)) of
        Inl e \<Rightarrow> (Inl e, log CookieGet w)
      | Inr decodedCookie \<Rightarrow>
          (Inr (find_cookie (STORAGE_NAME @ js ''='') (split_on 0x3B decodedCookie)),
           log CookieGet w))"

text \<open>
  \<open>cookieJson[key] = value\<close> and \<open>delete cookieJson[key]\<close> on what \<open>JSON.parse\<close> gave
  (the same two statements are in the facade). The module is strict code. On \<open>null\<close>
  both throw. On a number, string or boolean the assignment throws, as it cannot
  create or change a property of a primitive value, except for \<open>__proto__\<close>, whose
  inherited setter ignores a string; \<open>delete\<close> finds nothing to delete and leaves the
  value, except on a string for \<open>length\<close> and the indices below its length, which
  cannot be deleted. Arrays are not modelled.
\<close>

definition js_assign :: "json \<Rightarrow> jsstring \<Rightarrow> jsstring \<Rightarrow> error + json" where
  "js_assign j key val =
     (case j of
        JObj ps \<Rightarrow> Inr (JObj (obj_assign ps key val))
      | JNull \<Rightarrow> Inl TypeError
      | JArr vs \<Rightarrow> Inl OutsideModel
      | _ \<Rightarrow> if key = js ''__proto__'' then Inr j else Inl TypeError)"

definition js_delete :: "json \<Rightarrow> jsstring \<Rightarrow> error + json" where
  "js_delete j key =
     (case j of
        JObj ps \<Rightarrow> Inr (JObj (obj_delete ps key))
      | JNull \<Rightarrow> Inl TypeError
      | JArr vs \<Rightarrow> Inl OutsideModel
      | JStr s \<Rightarrow>
          if key = js ''length'' \<or> (is_array_index key \<and> digits_val key < length s)
          then Inl TypeError else Inr j
      | _ \<Rightarrow> Inr j)"

definition write_cookie :: "jsstring \<Rightarrow> world \<Rightarrow> (error + unit) \<times> world" where
  "write_cookie cookieStr w =
     (Inr (), log (CookieSet cookieStr) (w\<lparr>cookie_jar := assign_cookie cookieStr (cookie_jar w)\<rparr>))"

definition CookieStorage_setItem :: "jsstring \<Rightarrow> jsstring \<Rightarrow> jsstring \<Rightarrow> world \<Rightarrow> (error + unit) \<times> world" where
  "CookieStorage_setItem STORAGE_NAME key val w =
     (case getUpdatedTime 7 w of
        (time, w1) \<Rightarrow>
          (case CookieStorage_getItem STORAGE_NAME w1 of
             (Inl e, w2) \<Rightarrow> (Inl e, w2)
           | (Inr existingCookie, w2) \<Rightarrow>
               (case (if existingCookie \<noteq> [] then JSON_parse existingCookie else Inr (JObj [])) of
                  Inl e \<Rightarrow> (Inl e, w2)
                | Inr parsed \<Rightarrow>
                    (case js_assign parsed key val of
                       Inl e \<Rightarrow> (Inl e, w2)
                     | Inr cookieJson \<Rightarrow>
                         write_cookie
                           (STORAGE_NAME @ js ''='' @ JSON_stringify cookieJson @ js '';''
                            @ (js ''expires='' @ time) @ js '';path=/'') w2))))"

definition CookieStorage_removeItem :: "jsstring \<Rightarrow> jsstring \<Rightarrow> world \<Rightarrow> (error + unit) \<times> world" where
  "CookieStorage_removeItem STORAGE_NAME key w =
     (case getUpdatedTime 7 w of
        (time, w1) \<Rightarrow>
          (case CookieStorage_getItem STORAGE_NAME w1 of
             (Inl e, w2) \<Rightarrow> (Inl e, w2)
           | (Inr existingCookie, w2) \<Rightarrow>
               (case (if existingCookie \<noteq> []
                      then (case JSON_parse existingCookie of
                              Inl e \<Rightarrow> Inl e
                            | Inr parsed \<Rightarrow> js_delete parsed key)
                      else Inr (JObj [])) of
                  Inl e \<Rightarrow> (Inl e, w2)
                | Inr cookieJson \<Rightarrow>
                    write_cookie
                      (STORAGE_NAME @ js ''='' @ JSON_stringify cookieJson @ js '';''
                       @ (js ''expires='' @ time) @ js '';path=/'') w2)))"

subsection \<open>\<open>class MemoryStorage\<close>\<close>

definition new_MemoryStorage :: "world \<Rightarrow> nat \<times> world" where
  "new_MemoryStorage w =
     (case MemoryStorage_storage w of
        Some a \<Rightarrow> (a, w)
      | None \<Rightarrow>
          (length (heap w),
           w\<lparr>heap := heap w @ [MemoryStorage_obj Map.empty],
             MemoryStorage_storage := Some (length (heap w))\<rparr>))"

definition MemoryStorage_setItem :: "nat \<Rightarrow> (jsstring \<rightharpoonup> jsstring) \<Rightarrow> jsstring \<Rightarrow> jsstring \<Rightarrow> world \<Rightarrow> (error + unit) \<times> world" where
  "MemoryStorage_setItem a memStorage key val w =
     (Inr (), log (MapSet a key val) (w\<lparr>heap := (heap w)[a := MemoryStorage_obj (memStorage(key \<mapsto> val))]\<rparr>))"

definition MemoryStorage_getItem :: "nat \<Rightarrow> (jsstring \<rightharpoonup> jsstring) \<Rightarrow> jsstring \<Rightarrow> world \<Rightarrow> (error + jsstring option) \<times> world" where
  "MemoryStorage_getItem a memStorage key w =
     (Inr (case memStorage key of
             None \<Rightarrow> None
           | Some v \<Rightarrow> if v \<noteq> [] then Some v else None),
      log (MapGet a key) w)"

definition MemoryStorage_removeItem :: "nat \<Rightarrow> (jsstring \<rightharpoonup> jsstring) \<Rightarrow> jsstring \<Rightarrow> world \<Rightarrow> (error + unit) \<times> world" where
  "MemoryStorage_removeItem a memStorage key w =
     (Inr (), log (MapDelete a key) (w\<lparr>heap := (heap w)[a := MemoryStorage_obj (memStorage(key := None))]\<rparr>))"

subsection \<open>Method calls on the variable \<open>storage\<close>\<close>

text \<open>
  \<open>storage\<close> holds one of the two native stores or a reference to an instance. A call
  goes to the method of whatever it refers to; \<open>CookieStorage.getItem\<close> takes no
  parameter, so the key passed to it is dropped. A reference to no object cannot arise
  (\<open>TypeError\<close> stands for it).
\<close>

datatype storage_ref = Native store_id | Instance nat

definition storage_getItem :: "storage_ref \<Rightarrow> jsstring \<Rightarrow> world \<Rightarrow> (error + jsstring option) \<times> world" where
  "storage_getItem r key w =
     (case r of
        Native i \<Rightarrow> native_getItem i key w
      | Instance a \<Rightarrow>
          if length (heap w) \<le> a then (Inl TypeError, w)
          else (case heap w ! a of
                  CookieStorage_obj name \<Rightarrow>
                    (case CookieStorage_getItem name w of
                       (Inl e, w') \<Rightarrow> (Inl e, w')
                     | (Inr s, w') \<Rightarrow> (Inr (Some s), w'))
                | MemoryStorage_obj m \<Rightarrow> MemoryStorage_getItem a m key w))"

definition storage_setItem :: "storage_ref \<Rightarrow> jsstring \<Rightarrow> jsstring \<Rightarrow> world \<Rightarrow> (error + unit) \<times> world" where
  "storage_setItem r key val w =
     (case r of
        Native i \<Rightarrow> native_setItem i key val w
      | Instance a \<Rightarrow>
          if length (heap w) \<le> a then (Inl TypeError, w)
          else (case heap w ! a of
                  CookieStorage_obj name \<Rightarrow> CookieStorage_setItem name key val w
                | MemoryStorage_obj m \<Rightarrow> MemoryStorage_setItem a m key val w))"

definition storage_removeItem :: "storage_ref \<Rightarrow> jsstring \<Rightarrow> world \<Rightarrow> (error + unit) \<times> world" where
  "storage_removeItem r key w =
     (case r of
        Native i \<Rightarrow> native_removeItem i key w
      | Instance a \<Rightarrow>
          if length (heap w) \<le> a then (Inl TypeError, w)
          else (case heap w ! a of
                  CookieStorage_obj name \<Rightarrow> CookieStorage_removeItem name key w
                | MemoryStorage_obj m \<Rightarrow> MemoryStorage_removeItem a m key w))"

subsection \<open>\<open>createClientStorage\<close>\<close>

text \<open>The variables of the closure: the optional list of allowed keys and the selected backend.\<close>

record facade =
  allowedKeys :: "jsstring list option"
  storage :: storage_ref
  storageType :: jsstring

definition createClientStorage :: "jsstring list option \<Rightarrow> facade" where
  "createClientStorage keys =
     \<lparr>allowedKeys = keys, storage = Native Session, storageType = js ''sessionStorage''\<rparr>"

definition STORAGE_NAME :: jsstring where
  "STORAGE_NAME = js ''__react__storage''"

definition setStorage :: "jsstring \<Rightarrow> facade \<times> world \<Rightarrow> facade \<times> world" where
  "setStorage storeName fw =
     (case fw of
        (f, w) \<Rightarrow>
          if storeName = js ''cookieStorage'' then
            (case new_CookieStorage STORAGE_NAME w of
               (a, w') \<Rightarrow> (f\<lparr>storageType := storeName, storage := Instance a\<rparr>, w'))
          else if storeName = js ''memoryStorage'' then
            (case new_MemoryStorage w of
               (a, w') \<Rightarrow> (f\<lparr>storageType := storeName, storage := Instance a\<rparr>, w'))
          else if storeName = js ''localStorage'' then
            (f\<lparr>storageType := storeName, storage := Native Local\<rparr>, w)
          else if storeName = js ''sessionStorage'' then
            (f\<lparr>storageType := storeName, storage := Native Session\<rparr>, w)
          else (f\<lparr>storageType := storeName, storage := Native Session\<rparr>, w))"

text \<open>\<open>allowedKeys && !allowedKeys.includes(key)\<close>: an array, even an empty one, is truthy.\<close>

definition not_allowed :: "facade \<Rightarrow> jsstring \<Rightarrow> bool" where
  "not_allowed f key = (case allowedKeys f of None \<Rightarrow> False | Some ks \<Rightarrow> key \<notin> set ks)"

definition not_allowed_message :: "jsstring \<Rightarrow> jsstring" where
  "not_allowed_message key = js ''Key '' @ [0x27] @ key @ [0x27] @ js '' is not allowed.''"

definition direct :: "facade \<Rightarrow> bool" where
  "direct f = (storageType f = js ''memoryStorage'' \<or> storageType f = js ''cookieStorage'')"

definition setItem :: "facade \<Rightarrow> jsstring \<Rightarrow> jsstring \<Rightarrow> world \<Rightarrow> (error + unit) \<times> world" where
  "setItem f key val w =
     (if not_allowed f key then (Inl (Error (not_allowed_message key)), w)
      else if direct f then storage_setItem (storage f) key val w
      else (case storage_getItem (storage f) STORAGE_NAME w of
              (Inl e, w1) \<Rightarrow> (Inl e, w1)
            | (Inr None, w1) \<Rightarrow>
                storage_setItem (storage f) STORAGE_NAME
                  (JSON_stringify (JObj (obj_define [] key (JStr val)))) w1
            | (Inr (Some storeValue), w1) \<Rightarrow>
                if storeValue \<noteq> [] then
                  (case JSON_parse storeValue of
                     Inl e \<Rightarrow> (Inl e, w1)
                   | Inr parsed \<Rightarrow>
                       (case js_assign parsed key val of
                          Inl e \<Rightarrow> (Inl e, w1)
                        | Inr oldValue \<Rightarrow>
                            storage_setItem (storage f) STORAGE_NAME (JSON_stringify oldValue) w1))
                else
                  storage_setItem (storage f) STORAGE_NAME
                    (JSON_stringify (JObj (obj_define [] key (JStr val)))) w1))"

text \<open>\<open>x || null\<close>. Among the numbers that \<open>JSON_parse\<close> returns only \<open>0\<close> is falsy.\<close>

definition truthy :: "jsval \<Rightarrow> bool" where
  "truthy x =
     (case x of
        Undefined \<Rightarrow> False
      | Inherited k \<Rightarrow> True
      | Value JNull \<Rightarrow> False
      | Value (JBool b) \<Rightarrow> b
      | Value (JNum n) \<Rightarrow> n \<noteq> [0x30]
      | Value (JStr s) \<Rightarrow> s \<noteq> []
      | Value (JArr vs) \<Rightarrow> True
      | Value (JObj ps) \<Rightarrow> True)"

definition or_null :: "jsval \<Rightarrow> jsval" where
  "or_null x = (if truthy x then x else Value JNull)"

text \<open>
  \<open>parsedVAlue[key]\<close>. Reading a property of \<open>null\<close> throws; what a read finds on a
  number, string, boolean or array is not modelled.
\<close>

definition js_get :: "json \<Rightarrow> jsstring \<Rightarrow> error + jsval" where
  "js_get j key =
     (case j of
        JObj ps \<Rightarrow> Inr (obj_get ps key)
      | JNull \<Rightarrow> Inl TypeError
      | _ \<Rightarrow> Inl OutsideModel)"

definition string_or_null :: "jsstring option \<Rightarrow> jsval" where
  "string_or_null x = (case x of None \<Rightarrow> Value JNull | Some s \<Rightarrow> Value (JStr s))"

definition getItem :: "facade \<Rightarrow> jsstring \<Rightarrow> world \<Rightarrow> (error + jsval) \<times> world" where
  "getItem f key w =
     (if not_allowed f key then (Inl (Error (not_allowed_message key)), w)
      else if direct f then
        (case storage_getItem (storage f) key w of
           (Inl e, w1) \<Rightarrow> (Inl e, w1)
         | (Inr r, w1) \<Rightarrow> (Inr (string_or_null r), w1))
      else (case storage_getItem (storage f) STORAGE_NAME w of
              (Inl e, w1) \<Rightarrow> (Inl e, w1)
            | (Inr None, w1) \<Rightarrow> (Inr (Value JNull), w1)
            | (Inr (Some storageValue), w1) \<Rightarrow>
                if storageValue \<noteq> [] then
                  (case JSON_parse storageValue of
                     Inl e \<Rightarrow> (Inl e, w1)
                   | Inr parsedVAlue \<Rightarrow>
                       (case js_get parsedVAlue key of
                          Inl e \<Rightarrow> (Inl e, w1)
                        | Inr x \<Rightarrow> (Inr (or_null x), w1)))
                else (Inr (Value JNull), w1)))"

definition removeItem :: "facade \<Rightarrow> jsstring \<Rightarrow> world \<Rightarrow> (error + unit) \<times> world" where
  "removeItem f key w =
     (if not_allowed f key then (Inl (Error (not_allowed_message key)), w)
      else if direct f then storage_removeItem (storage f) key w
      else (case storage_getItem (storage f) STORAGE_NAME w of
              (Inl e, w1) \<Rightarrow> (Inl e, w1)
            | (Inr None, w1) \<Rightarrow> (Inr (), w1)
            | (Inr (Some storeValue), w1) \<Rightarrow>
                if storeValue \<noteq> [] then
                  (case JSON_parse storeValue of
                     Inl e \<Rightarrow> (Inl e, w1)
                   | Inr parsed \<Rightarrow>
                       (case js_delete parsed key of
                          Inl e \<Rightarrow> (Inl e, w1)
                        | Inr oldValue \<Rightarrow>
                            storage_setItem (storage f) STORAGE_NAME (JSON_stringify oldValue) w1))
                else (Inr (), w1)))"

text \<open>A page that has run none of this code yet.\<close>

definition fresh_world :: "int \<Rightarrow> world" where
  "fresh_world t =
     \<lparr>localStorage = Map.empty, sessionStorage = Map.empty, cookie_jar = [], clock = t,
      heap = [], CookieStorage_storage = None, MemoryStorage_storage = None, trace = []\<rparr>"

section \<open>Notions used in the statements\<close>

text \<open>The facade is typed to keep a record of strings under the root key.\<close>

definition is_string :: "json \<Rightarrow> bool" where
  "is_string j = (case j of JStr s \<Rightarrow> True | _ \<Rightarrow> False)"

definition strings_only :: "(jsstring \<times> json) list \<Rightarrow> bool" where
  "strings_only ps = list_all (\<lambda>(k, v). is_string v) ps"

text \<open>The object \<open>JSON.parse\<close> builds from members read in this order.\<close>

definition define_all :: "(jsstring \<times> json) list \<Rightarrow> (jsstring \<times> json) list \<Rightarrow> (jsstring \<times> json) list" where
  "define_all acc ps = foldl (\<lambda>a (k, v). obj_define a k v) acc ps"

text \<open>
  The root entry of a native store is usable when it is missing, empty, or the JSON text
  of an object whose values are strings; \<open>root_object\<close> is that object.
\<close>

definition root_ok :: "jsstring option \<Rightarrow> bool" where
  "root_ok r =
     (case r of
        None \<Rightarrow> True
      | Some s \<Rightarrow>
          if s = [] then True
          else (case JSON_parse s of Inr (JObj ps) \<Rightarrow> strings_only ps | _ \<Rightarrow> False))"

definition root_object :: "jsstring option \<Rightarrow> (jsstring \<times> json) list" where
  "root_object r =
     (case r of
        None \<Rightarrow> []
      | Some s \<Rightarrow>
          if s = [] then []
          else (case JSON_parse s of Inr (JObj ps) \<Rightarrow> ps | _ \<Rightarrow> []))"

text \<open>
  A world is well formed when each static field \<open>storage\<close> that is set refers to a live
  instance of its class; the only \<open>CookieStorage\<close> ever constructed is the facade's,
  under the root key. Every world reached from a fresh page is well formed.
\<close>

definition is_memory :: "obj \<Rightarrow> bool" where
  "is_memory x = (case x of MemoryStorage_obj m \<Rightarrow> True | _ \<Rightarrow> False)"

definition wf_world :: "world \<Rightarrow> bool" where
  "wf_world w =
     ((case CookieStorage_storage w of
         None \<Rightarrow> True
       | Some a \<Rightarrow> a < length (heap w) \<and> heap w ! a = CookieStorage_obj STORAGE_NAME)
      \<and> (case MemoryStorage_storage w of
            None \<Rightarrow> True
          | Some a \<Rightarrow> a < length (heap w) \<and> is_memory (heap w ! a)))"

text \<open>
  What \<open>setStorage('memoryStorage')\<close> and \<open>setStorage('cookieStorage')\<close> establish,
  and what stays true while the facade keeps that selection.
\<close>

definition memory_backend :: "facade \<Rightarrow> world \<Rightarrow> bool" where
  "memory_backend f w =
     (storageType f = js ''memoryStorage''
      \<and> (case storage f of
            Native i \<Rightarrow> False
          | Instance a \<Rightarrow> MemoryStorage_storage w = Some a \<and> a < length (heap w) \<and> is_memory (heap w ! a)))"

definition cookie_backend :: "facade \<Rightarrow> world \<Rightarrow> bool" where
  "cookie_backend f w =
     (storageType f = js ''cookieStorage''
      \<and> (case storage f of
            Native i \<Rightarrow> False
          | Instance a \<Rightarrow> a < length (heap w) \<and> heap w ! a = CookieStorage_obj STORAGE_NAME))"



section \<open>Scenarios\<close>

text \<open>A facade without allow-list on a fresh page, switched to the cookie backend.\<close>

definition cookie_page :: "facade \<times> world" where
  "cookie_page = setStorage (js ''cookieStorage'') (createClientStorage None, fresh_world 0)"

text \<open>Then \<open>setItem('a', '1')\<close>, then \<open>removeItem('a')\<close>.\<close>

definition cookie_after_set :: world where
  "cookie_after_set = snd (setItem (fst cookie_page) (js ''a'') (js ''1'') (snd cookie_page))"

definition cookie_after_remove :: world where
  "cookie_after_remove = snd (removeItem (fst cookie_page) (js ''a'') cookie_after_set)"

text \<open>A page whose cookie under the root key holds text that is not JSON.\<close>

definition corrupt_cookie_world :: world where
  "corrupt_cookie_world = (fresh_world 0)\<lparr>cookie_jar := [(STORAGE_NAME, js ''abc'')]\<rparr>"

text \<open>On the cookie page, \<open>setItem('a', '100%')\<close> instead.\<close>

definition cookie_after_percent :: world where
  "cookie_after_percent = snd (setItem (fst cookie_page) (js ''a'') (js ''100%'') (snd cookie_page))"

text \<open>A page whose cookie under the root key holds the JSON text \<open>null\<close>.\<close>

definition null_cookie_world :: world where
  "null_cookie_world = (fresh_world 0)\<lparr>cookie_jar := [(STORAGE_NAME, js ''null'')]\<rparr>"



text \<open>A page where \<open>a\<close> was stored as \<open>1\<close> through the persistent backend.\<close>

definition local_holds_a1 :: world where
  "local_holds_a1 =
     snd (setItem (fst (setStorage (js ''localStorage'') (createClientStorage None, fresh_world 0)))
            (js ''a'') (js ''1'') (fresh_world 0))"

section \<open>String literals\<close>

lemma unat_of_char: "unat (of_char c :: code_unit) = of_char c"
proof -
  have "(of_char c :: nat) < 2 ^ 16"
    by (rule less_trans [OF nat_of_char_less_256]) simp
  hence "unat (of_nat (of_char c) :: code_unit) = of_char c"
    by (simp add: unat_of_nat)
  thus ?thesis by (simp add: of_nat_of_char)
qed

lemma of_char_unit_eq_iff: "(of_char c :: code_unit) = of_char d \<longleftrightarrow> c = d"
proof
  assume "(of_char c :: code_unit) = of_char d"
  hence "unat (of_char c :: code_unit) = unat (of_char d :: code_unit)" by simp
  thus "c = d" by (simp add: unat_of_char)
qed simp

lemma js_eq_iff: "js a = js b \<longleftrightarrow> a = b"
  unfolding js_def by (simp add: inj_map_eq_map inj_def of_char_unit_eq_iff)

section \<open>\<open>JSON.parse\<close> inverts \<open>JSON.stringify\<close> on records of strings\<close>

lemma unat_of_nat16: "m < 65536 \<Longrightarrow> unat (of_nat m :: code_unit) = m"
  by (simp add: unat_of_nat)

lemma unat_hex_digit:
  "n < 16 \<Longrightarrow> unat (hex_digit n) = (if n < 10 then 48 + n else 87 + n)"
  using unat_of_nat16 [of "48 + n"] unat_of_nat16 [of "87 + n"]
  by (simp add: hex_digit_def del: of_nat_add)

lemma hex_val_hex_digit: "n < 16 \<Longrightarrow> hex_val (hex_digit n) = Some n"
  by (simp add: hex_val_def word_le_nat_alt unat_hex_digit)

lemma nibbles: "4096 * (n div 4096) + 256 * (n div 256 mod 16) + 16 * (n div 16 mod 16) + n mod 16 = (n::nat)"
proof -
  have a: "n = 16 * (n div 16) + n mod 16" by simp
  have b: "n div 16 = 16 * (n div 16 div 16) + n div 16 mod 16" by simp
  have c: "n div 256 = 16 * (n div 256 div 16) + n div 256 mod 16" by simp
  have d: "n div 16 div 16 = n div 256" by (simp add: div_mult2_eq[symmetric])
  have e: "n div 256 div 16 = n div 4096" by (simp add: div_mult2_eq[symmetric])
  from a b c d e show ?thesis by linarith
qed

lemma hex4_unicode_escape:
  "hex4 (hex_digit (unat c div 4096)) (hex_digit (unat c div 256 mod 16))
        (hex_digit (unat c div 16 mod 16)) (hex_digit (unat c mod 16)) = Some c"
proof -
  have "unat c < 2 ^ 16" using unsigned_less [of c] by simp
  hence "unat c div 4096 < 16" by simp
  thus ?thesis by (simp add: hex4_def hex_val_hex_digit nibbles)
qed

lemma parse_string_unicode_escape:
  "parse_string (unicode_escape c @ t) = cons_result c (parse_string t)"
  by (simp add: unicode_escape_def hex4_unicode_escape)

lemma surrogate_plain:
  "is_high_surrogate c \<or> is_low_surrogate c \<Longrightarrow> c \<noteq> 0x22 \<and> c \<noteq> 0x5C \<and> \<not> c < 0x20"
  by (auto simp: is_high_surrogate_def is_low_surrogate_def word_le_nat_alt word_less_nat_alt)

lemma parse_string_quote_unit:
  "parse_string (quote_unit c @ t) = cons_result c (parse_string t)"
  by (simp add: quote_unit_def parse_string_unicode_escape unescape_def)

lemma parse_string_quote_units:
  "parse_string (quote_units s @ 0x22 # rest) = Some (s, rest)"
proof (induction s rule: quote_units.induct)
  case 1
  show ?case by simp
next
  case (2 c)
  show ?case using parse_string_quote_unit [of c "0x22 # rest"]
    by (simp add: cons_result_def)
next
  case (3 c d cs)
  show ?case
  proof (cases "is_high_surrogate c \<and> is_low_surrogate d")
    case True
    with 3 surrogate_plain [of c] surrogate_plain [of d] show ?thesis
      by (simp add: cons_result_def)
  next
    case False
    hence "quote_units (c # d # cs) = quote_unit c @ quote_units (d # cs)" by auto
    hence "parse_string (quote_units (c # d # cs) @ 0x22 # rest)
             = parse_string (quote_unit c @ (quote_units (d # cs) @ 0x22 # rest))"
      by (simp only: append_assoc)
    also have "\<dots> = cons_result c (parse_string (quote_units (d # cs) @ 0x22 # rest))"
      by (rule parse_string_quote_unit)
    also have "\<dots> = cons_result c (Some (d # cs, rest))"
      using 3(2) [OF False] by (simp only:)
    finally show ?thesis by (simp add: cons_result_def)
  qed
qed


lemma is_stringE: "is_string v \<Longrightarrow> \<exists>s. v = JStr s"
  by (cases v) (simp_all add: is_string_def)

lemma skip_ws_token: "\<not> is_ws c \<Longrightarrow> skip_ws (c # r) = c # r"
  by (simp add: skip_ws_def)

lemma stringify_members_starts:
  "\<exists>t. stringify_members (p # ps) = 0x22 # t"
  by (cases p; cases ps) (auto simp: QuoteJSONString_def)

lemma skip_ws_members: "skip_ws (stringify_members (p # ps) @ r) = stringify_members (p # ps) @ r"
proof -
  obtain t where "stringify_members (p # ps) = 0x22 # t"
    using stringify_members_starts by blast
  thus ?thesis by (simp add: skip_ws_def is_ws_def)
qed

lemma parse_value_string:
  "parse_value (Suc n) (0x22 # quote_units s @ 0x22 # r) = Some (JStr s, r)"
  by (simp add: parse_string_quote_units)

lemma stringify_members_one:
  "stringify_members [(k, JStr s)] @ r = 0x22 # quote_units k @ 0x22 # 0x3A # 0x22 # quote_units s @ 0x22 # r"
  by (simp add: QuoteJSONString_def)

lemma stringify_members_more:
  "stringify_members ((k, JStr s) # p # ps) @ r
     = 0x22 # quote_units k @ 0x22 # 0x3A # 0x22 # quote_units s @ 0x22 # 0x2C # stringify_members (p # ps) @ r"
  by (simp add: QuoteJSONString_def)

lemma parse_member_text_last:
  "parse_members (Suc (Suc n)) acc
     (0x22 # quote_units k @ 0x22 # 0x3A # 0x22 # quote_units s @ 0x22 # 0x7D # rest)
     = Some (JObj (obj_define acc k (JStr s)), rest)"
  by (simp add: parse_string_quote_units skip_ws_def is_ws_def)

lemma parse_member_text_next:
  "skip_ws R = R \<Longrightarrow>
   parse_members (Suc (Suc n)) acc
     (0x22 # quote_units k @ 0x22 # 0x3A # 0x22 # quote_units s @ 0x22 # 0x2C # R)
     = parse_members (Suc n) (obj_define acc k (JStr s)) R"
  by (simp add: parse_string_quote_units skip_ws_token is_ws_def)

lemma parse_member_last:
  "parse_members (Suc (Suc n)) acc (stringify_members [(k, JStr s)] @ 0x7D # rest)
     = Some (JObj (obj_define acc k (JStr s)), rest)"
  by (simp only: stringify_members_one parse_member_text_last)

lemma parse_member_next:
  "parse_members (Suc (Suc n)) acc (stringify_members ((k, JStr s) # p # ps) @ 0x7D # rest)
     = parse_members (Suc n) (obj_define acc k (JStr s)) (stringify_members (p # ps) @ 0x7D # rest)"
  by (simp only: stringify_members_more parse_member_text_next [OF skip_ws_members])

lemma parse_members_stringify:
  "strings_only (p # ps) \<Longrightarrow> length ps < n \<Longrightarrow>
     parse_members (Suc n) acc (stringify_members (p # ps) @ 0x7D # rest)
       = Some (JObj (define_all acc (p # ps)), rest)"
proof (induction ps arbitrary: p acc n)
  case Nil
  then obtain k s where p: "p = (k, JStr s)"
    by (cases p) (auto simp: strings_only_def dest: is_stringE)
  from Nil obtain m where n: "n = Suc m" by (cases n) auto
  show ?case unfolding p n by (simp only: parse_member_last) (simp add: define_all_def)
next
  case (Cons q qs)
  then obtain k s where p: "p = (k, JStr s)"
    by (cases p) (auto simp: strings_only_def dest: is_stringE)
  from Cons.prems obtain m where n: "n = Suc m" and m: "length qs < m" by (cases n) auto
  from Cons.prems have so: "strings_only (q # qs)" by (simp add: strings_only_def)
  have "parse_members (Suc n) acc (stringify_members (p # q # qs) @ 0x7D # rest)
          = parse_members (Suc m) (obj_define acc k (JStr s)) (stringify_members (q # qs) @ 0x7D # rest)"
    unfolding p n by (rule parse_member_next)
  also have "\<dots> = Some (JObj (define_all (obj_define acc k (JStr s)) (q # qs)), rest)"
    by (rule Cons.IH [OF so m])
  finally show ?case by (simp add: define_all_def p)
qed

lemma length_stringify_members: "length ps < length (stringify_members (p # ps))"
proof (induction ps arbitrary: p)
  case Nil
  show ?case by (cases p) (simp add: QuoteJSONString_def)
next
  case (Cons q qs)
  from Cons [of q] show ?case by (cases p) simp
qed

lemma parse_value_object:
  "skip_ws (d # r) = d # r \<Longrightarrow> d \<noteq> 0x7D \<Longrightarrow>
     parse_value (Suc n) (0x7B # d # r) = parse_members n [] (d # r)"
  by simp

lemma numbers_ok_insert_index:
  "numbers_ok_members ps \<Longrightarrow> numbers_ok v \<Longrightarrow> numbers_ok_members (insert_index k v ps)"
  by (induction k v ps rule: insert_index.induct) auto

lemma numbers_ok_replace:
  "numbers_ok_members ps \<Longrightarrow> numbers_ok v \<Longrightarrow>
     numbers_ok_members (map (\<lambda>(k', v'). if k' = k then (k', v) else (k', v')) ps)"
  by (induction ps) auto

lemma numbers_ok_append:
  "numbers_ok_members ps \<Longrightarrow> numbers_ok v \<Longrightarrow> numbers_ok_members (ps @ [(k, v)])"
  by (induction ps) auto

lemma numbers_ok_define:
  "numbers_ok_members ps \<Longrightarrow> numbers_ok v \<Longrightarrow> numbers_ok_members (obj_define ps k v)"
  by (simp add: obj_define_def numbers_ok_insert_index numbers_ok_replace numbers_ok_append)

lemma numbers_ok_strings:
  "strings_only ps \<Longrightarrow> numbers_ok_members acc \<Longrightarrow> numbers_ok_members (define_all acc ps)"
proof (induction ps arbitrary: acc)
  case Nil
  thus ?case by (simp add: define_all_def)
next
  case (Cons p ps)
  obtain k v where p: "p = (k, v)" by (cases p)
  from Cons.prems(1) have v: "numbers_ok v" and r: "strings_only ps"
    by (auto simp: p strings_only_def dest: is_stringE)
  have "numbers_ok_members (define_all (obj_define acc k v) ps)"
    by (rule Cons.IH [OF r numbers_ok_define [OF Cons.prems(2) v]])
  thus ?case by (simp add: define_all_def p)
qed

lemma JSON_parse_stringify:
  assumes "strings_only ps"
  shows "JSON_parse (JSON_stringify (JObj ps)) = Inr (JObj (define_all [] ps))"
proof (cases ps)
  case Nil
  thus ?thesis
    by (simp add: JSON_parse_def skip_ws_def is_ws_def define_all_def)
next
  case (Cons p qs)
  let ?M = "stringify_members (p # qs)"
  obtain t where t: "?M = 0x22 # t"
    using stringify_members_starts by blast
  have tx: "JSON_stringify (JObj ps) = 0x7B # ?M @ [0x7D]"
    by (simp add: Cons)
  have sk: "skip_ws (0x7B # ?M @ [0x7D]) = 0x7B # ?M @ [0x7D]"
    by (simp add: skip_ws_def is_ws_def)
  have "skip_ws (0x22 # t @ [0x7D]) = 0x22 # t @ [0x7D]"
    by (simp add: skip_ws_def is_ws_def)
  hence "parse_value (Suc (Suc (Suc (length ?M)))) (0x7B # 0x22 # t @ [0x7D])
          = parse_members (Suc (Suc (length ?M))) [] (0x22 # t @ [0x7D])"
    by (rule parse_value_object) simp
  hence "parse_value (Suc (length (0x7B # ?M @ [0x7D]))) (0x7B # ?M @ [0x7D])
          = parse_members (Suc (Suc (length ?M))) [] (?M @ 0x7D # [])"
    by (simp add: t)
  also have "\<dots> = Some (JObj (define_all [] (p # qs)), [])"
  proof (rule parse_members_stringify)
    show "strings_only (p # qs)" using assms Cons by simp
    show "length qs < Suc (length ?M)"
      using length_stringify_members [of qs p] by simp
  qed
  finally have pv: "parse_value (Suc (length (0x7B # ?M @ [0x7D]))) (0x7B # ?M @ [0x7D])
                     = Some (JObj (define_all [] (p # qs)), [])" .
  have "numbers_ok_members (define_all [] ps)"
    using assms by (rule numbers_ok_strings) simp
  thus ?thesis
    by (simp only: JSON_parse_def tx sk pv) (simp add: skip_ws_def Cons)
qed

section \<open>The bound of \<open>JSON.parse\<close> is enough\<close>

text \<open>
  Whatever a larger bound would parse, the bound of \<open>JSON_parse\<close> parses: a
  \<open>SyntaxError\<close> of the model is a syntax error, never an exhausted bound.
\<close>

lemma length_skip_ws: "length (skip_ws s) \<le> length s"
  by (simp add: skip_ws_def length_dropWhile_le)

lemma cons_result_Some:
  "cons_result c x = Some (s, r) \<Longrightarrow> \<exists>s'. x = Some (s', r)"
  by (cases x) (auto simp: cons_result_def)

lemma parse_string_shorter:
  "parse_string cs = Some (x, r) \<Longrightarrow> length r < length cs"
proof (induction cs arbitrary: x rule: parse_string.induct)
  case 1
  thus ?case by simp
next
  case (2 c cs)
  show ?case
  proof (cases "c = 0x22")
    case True
    with "2.prems" show ?thesis by simp
  next
    case nq: False
    show ?thesis
    proof (cases "c = 0x5C")
      case False
      with nq "2.prems" have lt: "\<not> c < 0x20" and "cons_result c (parse_string cs) = Some (x, r)"
        by (auto split: if_splits)
      then obtain x' where "parse_string cs = Some (x', r)"
        by (blast dest: cons_result_Some)
      from "2.IH"(3) [OF nq False lt this] show ?thesis by simp
    next
      case bs: True
      show ?thesis
      proof (cases cs)
        case Nil
        with bs nq "2.prems" show ?thesis by simp
      next
        case (Cons e t)
        show ?thesis
        proof (cases "e = 0x75")
          case False
          with bs nq Cons "2.prems" obtain u where u: "unescape e = Some u"
              and "cons_result u (parse_string t) = Some (x, r)"
            by (auto split: option.splits)
          then obtain x' where "parse_string t = Some (x', r)"
            by (blast dest: cons_result_Some)
          from "2.IH"(2) [OF nq bs Cons False u this] Cons show ?thesis by simp
        next
          case True
          with bs nq Cons "2.prems" obtain h1 h2 h3 h4 t' u where
              t: "t = h1 # h2 # h3 # h4 # t'" and u: "hex4 h1 h2 h3 h4 = Some u"
              and "cons_result u (parse_string t') = Some (x, r)"
            by (auto split: list.splits option.splits)
          then obtain x' where "parse_string t' = Some (x', r)"
            by (blast dest: cons_result_Some)
          from "2.IH"(1) [OF nq bs Cons True] t u this Cons show ?thesis by force
        qed
      qed
    qed
  qed
qed


lemma parse_frac_shorter: "parse_frac s = Some (f, r) \<Longrightarrow> length r \<le> length s"
  by (auto simp: parse_frac_def split: list.splits if_splits
      intro: le_trans [OF length_dropWhile_le])

lemma parse_exp_shorter: "parse_exp s = Some (f, r) \<Longrightarrow> length r \<le> length s"
  by (auto simp: parse_exp_def Let_def split: list.splits if_splits
      intro: le_trans [OF length_dropWhile_le])

lemma dropWhile_shorter: "takeWhile P s \<noteq> [] \<Longrightarrow> length (dropWhile P s) < length s"
  by (cases s) (auto simp: less_Suc_eq_le length_dropWhile_le split: if_splits)

lemma parse_number_shorter:
  assumes "parse_number s = Some (l, r)"
  shows "length r < length s"
proof -
  define sg where "sg = (case s of [] \<Rightarrow> [] | c # t \<Rightarrow> if c = (0x2D :: code_unit) then [c] else [])"
  define s1 where "s1 = drop (length sg) s"
  from assms have ne: "takeWhile is_digit s1 \<noteq> []"
    by (auto simp: parse_number_def Let_def sg_def s1_def split: if_splits)
  from assms obtain fp s2 ep where f: "parse_frac (dropWhile is_digit s1) = Some (fp, s2)"
      and e: "parse_exp s2 = Some (ep, r)"
    by (auto simp: parse_number_def Let_def sg_def s1_def split: if_splits option.splits)
  have "length r \<le> length s2" using e by (rule parse_exp_shorter)
  also have "\<dots> \<le> length (dropWhile is_digit s1)" using f by (rule parse_frac_shorter)
  also have "\<dots> < length s1" using ne by (rule dropWhile_shorter)
  also have "\<dots> \<le> length s" by (simp add: s1_def)
  finally show ?thesis .
qed

lemma enoughD:
  assumes "enough p m" "p m s = Some (v, r)"
  shows "length r < length s" and "\<And>n. length s - length r \<le> n \<Longrightarrow> p n s = Some (v, r)"
proof -
  note * = assms(1) [unfolded enough_def, THEN spec, THEN spec, THEN spec, THEN mp, OF assms(2)]
  from * show "length r < length s" by (rule conjunct1)
  fix n assume "length s - length r \<le> n"
  with * [THEN conjunct2, THEN spec, of n] show "p n s = Some (v, r)" by (rule mp)
qed

lemma skip_ws_Cons_shorter: "skip_ws cs = d # t \<Longrightarrow> length t < length cs"
  using length_skip_ws [of cs] by simp

lemma parse_value_leaf:
  assumes "c \<noteq> 0x7B" "c \<noteq> 0x5B"
  shows "parse_value (Suc n) (c # cs) = parse_value (Suc m) (c # cs)"
  using assms by simp

lemma parse_value_leaf_shorter:
  assumes "c \<noteq> 0x7B" "c \<noteq> 0x5B" "parse_value (Suc m) (c # cs) = Some (v, r)"
  shows "length r < Suc (length cs)"
proof (cases "c = 0x22")
  case True
  with assms obtain x where "parse_string cs = Some (x, r)"
    by (auto split: option.splits)
  from parse_string_shorter [OF this] show ?thesis by simp
next
  case nq: False
  show ?thesis
  proof (cases "starts_with (c # cs) (js ''true'') \<or> starts_with (c # cs) (js ''false'')
                \<or> starts_with (c # cs) (js ''null'')")
    case True
    with assms nq have "r = drop 4 (c # cs) \<or> r = drop 5 (c # cs)"
      by (auto simp del: starts_with.simps split: if_splits)
    thus ?thesis by auto
  next
    case False
    with assms nq obtain l where "parse_number (c # cs) = Some (l, r)"
      by (auto simp del: starts_with.simps split: if_splits option.splits)
    from parse_number_shorter [OF this] show ?thesis by simp
  qed
qed

lemma parse_value_enough:
  assumes E: "\<And>acc. enough (\<lambda>n. parse_elems n acc) m"
      and M: "\<And>acc. enough (\<lambda>n. parse_members n acc) m"
  shows "enough parse_value (Suc m)"
  unfolding enough_def
proof (intro allI impI)
  fix s v r assume p: "parse_value (Suc m) s = Some (v, r)"
  then obtain c cs where s: "s = c # cs" by (cases s) auto
  consider (obj) "c = 0x7B" | (arr) "c \<noteq> 0x7B" "c = 0x5B" | (leaf) "c \<noteq> 0x7B" "c \<noteq> 0x5B" by blast
  thus "length r < length s \<and> (\<forall>n. length s - length r \<le> n \<longrightarrow> parse_value n s = Some (v, r))"
  proof cases
    case leaf
    have short: "length r < length s"
      using parse_value_leaf_shorter [OF leaf p [unfolded s]] by (simp add: s)
    show ?thesis
    proof (intro conjI allI impI)
      show "length r < length s" by (rule short)
      fix n assume "length s - length r \<le> n"
      with short obtain n' where "n = Suc n'" by (cases n) auto
      with parse_value_leaf [OF leaf, of n' cs m] p show "parse_value n s = Some (v, r)"
        by (simp only: s)
    qed
  next
    case obj
    from p obj obtain d t where sk: "skip_ws cs = d # t"
      by (cases "skip_ws cs") (auto simp: s)
    note lt = skip_ws_Cons_shorter [OF sk]
    show ?thesis
    proof (cases "d = 0x7D")
      case True
      with p obj sk have r: "r = t" "v = JObj []" by (simp_all add: s)
      show ?thesis
      proof (intro conjI allI impI)
        show "length r < length s" using lt by (simp add: r s)
        fix n assume "length s - length r \<le> n"
        with lt obtain n' where "n = Suc n'" by (cases n) (auto simp: r s)
        thus "parse_value n s = Some (v, r)" using obj sk True by (simp add: s r)
      qed
    next
      case False
      with p obj sk have q: "parse_members m [] (d # t) = Some (v, r)" by (simp add: s)
      note h = enoughD [OF M q]
      show ?thesis
      proof (intro conjI allI impI)
        show "length r < length s" using h(1) lt by (simp add: s)
        fix n assume n: "length s - length r \<le> n"
        with h(1) lt obtain n' where n': "n = Suc n'" by (cases n) (auto simp: s)
        with n h(1) lt have "length (d # t) - length r \<le> n'" by (simp add: s)
        from h(2) [OF this] show "parse_value n s = Some (v, r)"
          using obj sk False by (simp add: s n')
      qed
    qed
  next
    case arr
    from p arr obtain d t where sk: "skip_ws cs = d # t"
      by (cases "skip_ws cs") (auto simp: s)
    note lt = skip_ws_Cons_shorter [OF sk]
    show ?thesis
    proof (cases "d = 0x5D")
      case True
      with p arr sk have r: "r = t" "v = JArr []" by (simp_all add: s)
      show ?thesis
      proof (intro conjI allI impI)
        show "length r < length s" using lt by (simp add: r s)
        fix n assume "length s - length r \<le> n"
        with lt obtain n' where "n = Suc n'" by (cases n) (auto simp: r s)
        thus "parse_value n s = Some (v, r)" using arr sk True by (simp add: s r)
      qed
    next
      case False
      with p arr sk have q: "parse_elems m [] (d # t) = Some (v, r)" by (simp add: s)
      note h = enoughD [OF E q]
      show ?thesis
      proof (intro conjI allI impI)
        show "length r < length s" using h(1) lt by (simp add: s)
        fix n assume n: "length s - length r \<le> n"
        with h(1) lt obtain n' where n': "n = Suc n'" by (cases n) (auto simp: s)
        with n h(1) lt have "length (d # t) - length r \<le> n'" by (simp add: s)
        from h(2) [OF this] show "parse_value n s = Some (v, r)"
          using arr sk False by (simp add: s n')
      qed
    qed
  qed
qed

lemma parse_elems_enough:
  assumes V: "enough parse_value m"
      and E: "\<And>acc. enough (\<lambda>n. parse_elems n acc) m"
  shows "enough (\<lambda>n. parse_elems n acc) (Suc m)"
  unfolding enough_def
proof (intro allI impI)
  fix s v r assume p: "parse_elems (Suc m) acc s = Some (v, r)"
  then obtain x r1 where pv: "parse_value m s = Some (x, r1)"
    by (auto split: option.splits)
  note hv = enoughD [OF V pv]
  from p pv obtain d r' where sk: "skip_ws r1 = d # r'"
    by (cases "skip_ws r1") auto
  note lt = skip_ws_Cons_shorter [OF sk]
  have unfold: "parse_elems (Suc n) acc s =
                  (if d = 0x2C then parse_elems n (acc @ [x]) (skip_ws r')
                   else if d = 0x5D then Some (JArr (acc @ [x]), r') else None)"
    if "length s - length r1 \<le> n" for n
    using hv(2) [OF that] sk by simp
  have here: "parse_elems (Suc m) acc s =
                  (if d = 0x2C then parse_elems m (acc @ [x]) (skip_ws r')
                   else if d = 0x5D then Some (JArr (acc @ [x]), r') else None)"
    using pv sk by simp
  show "length r < length s \<and> (\<forall>n. length s - length r \<le> n \<longrightarrow> parse_elems n acc s = Some (v, r))"
  proof (cases "d = 0x2C")
    case True
    with p here have q: "parse_elems m (acc @ [x]) (skip_ws r') = Some (v, r)" by simp
    note he = enoughD [OF E q]
    have l2: "length (skip_ws r') \<le> length r'" by (rule length_skip_ws)
    show ?thesis
    proof (intro conjI allI impI)
      show "length r < length s" using he(1) l2 lt hv(1) by simp
      fix n assume n: "length s - length r \<le> n"
      with he(1) l2 lt hv(1) obtain n' where n': "n = Suc n'" by (cases n) auto
      from n n' he(1) l2 lt hv(1) have a: "length s - length r1 \<le> n'"
        and b: "length (skip_ws r') - length r \<le> n'" by simp_all
      from unfold [OF a] he(2) [OF b] True show "parse_elems n acc s = Some (v, r)"
        by (simp add: n')
    qed
  next
    case False
    with p here have e: "d = 0x5D" "v = JArr (acc @ [x])" "r = r'"
      by (auto split: if_splits)
    show ?thesis
    proof (intro conjI allI impI)
      show "length r < length s" using e lt hv(1) by simp
      fix n assume n: "length s - length r \<le> n"
      with e lt hv(1) obtain n' where n': "n = Suc n'" by (cases n) auto
      from n n' e lt hv(1) have a: "length s - length r1 \<le> n'" by simp
      from unfold [OF a] False e show "parse_elems n acc s = Some (v, r)"
        by (simp add: n')
    qed
  qed
qed

lemma parse_members_enough:
  assumes V: "enough parse_value m"
      and M: "\<And>acc. enough (\<lambda>n. parse_members n acc) m"
  shows "enough (\<lambda>n. parse_members n acc) (Suc m)"
  unfolding enough_def
proof (intro allI impI)
  fix s v r assume p: "parse_members (Suc m) acc s = Some (v, r)"
  then obtain cs where s: "s = 0x22 # cs"
    by (cases s) (auto split: if_splits)
  from p obtain k r0 where ps: "parse_string cs = Some (k, r0)"
    by (auto simp: s split: option.splits)
  note l0 = parse_string_shorter [OF ps]
  from p ps obtain r1 where sk0: "skip_ws r0 = 0x3A # r1"
    by (cases "skip_ws r0") (auto simp: s split: if_splits)
  note l1 = skip_ws_Cons_shorter [OF sk0]
  have l1': "length (skip_ws r1) \<le> length r1" by (rule length_skip_ws)
  from p ps sk0 obtain x r2 where pv: "parse_value m (skip_ws r1) = Some (x, r2)"
    by (auto simp: s split: option.splits)
  note hv = enoughD [OF V pv]
  from p ps sk0 pv obtain d r3 where sk: "skip_ws r2 = d # r3"
    by (cases "skip_ws r2") (auto simp: s)
  note lt = skip_ws_Cons_shorter [OF sk]
  have unfold: "parse_members (Suc n) acc s =
                  (if d = 0x2C then parse_members n (obj_define acc k x) (skip_ws r3)
                   else if d = 0x7D then Some (JObj (obj_define acc k x), r3) else None)"
    if "length (skip_ws r1) - length r2 \<le> n" for n
    using hv(2) [OF that] sk ps sk0 by (simp add: s)
  have here: "parse_members (Suc m) acc s =
                  (if d = 0x2C then parse_members m (obj_define acc k x) (skip_ws r3)
                   else if d = 0x7D then Some (JObj (obj_define acc k x), r3) else None)"
    using pv sk ps sk0 by (simp add: s)
  have ls: "length (skip_ws r1) < length s"
    using l0 l1 l1' by (simp add: s)
  show "length r < length s \<and> (\<forall>n. length s - length r \<le> n \<longrightarrow> parse_members n acc s = Some (v, r))"
  proof (cases "d = 0x2C")
    case True
    with p here have q: "parse_members m (obj_define acc k x) (skip_ws r3) = Some (v, r)" by simp
    note hm = enoughD [OF M q]
    have l3: "length (skip_ws r3) \<le> length r3" by (rule length_skip_ws)
    show ?thesis
    proof (intro conjI allI impI)
      show "length r < length s" using hm(1) l3 lt hv(1) ls by simp
      fix n assume n: "length s - length r \<le> n"
      with hm(1) l3 lt hv(1) ls obtain n' where n': "n = Suc n'" by (cases n) auto
      from n n' hm(1) l3 lt hv(1) ls have a: "length (skip_ws r1) - length r2 \<le> n'"
        and b: "length (skip_ws r3) - length r \<le> n'" by simp_all
      from unfold [OF a] hm(2) [OF b] True show "parse_members n acc s = Some (v, r)"
        by (simp add: n')
    qed
  next
    case False
    with p here have e: "d = 0x7D" "v = JObj (obj_define acc k x)" "r = r3"
      by (auto split: if_splits)
    show ?thesis
    proof (intro conjI allI impI)
      show "length r < length s" using e lt hv(1) ls by simp
      fix n assume n: "length s - length r \<le> n"
      with e lt hv(1) ls obtain n' where n': "n = Suc n'" by (cases n) auto
      from n n' e lt hv(1) ls have a: "length (skip_ws r1) - length r2 \<le> n'" by simp
      from unfold [OF a] False e show "parse_members n acc s = Some (v, r)"
        by (simp add: n')
    qed
  qed
qed

lemma enough_zero:
  "enough parse_value 0" "enough (\<lambda>n. parse_elems n acc) 0" "enough (\<lambda>n. parse_members n acc') 0"
  by (simp_all add: enough_def)

lemma enough_all:
  "enough parse_value m \<and> (\<forall>acc. enough (\<lambda>n. parse_elems n acc) m)
   \<and> (\<forall>acc. enough (\<lambda>n. parse_members n acc) m)"
proof (induction m)
  case 0
  show ?case by (simp add: enough_zero)
next
  case (Suc m)
  thus ?case
    by (intro conjI allI parse_value_enough parse_elems_enough parse_members_enough) simp_all
qed

lemma JSON_parse_fuel:
  assumes "parse_value m (skip_ws s) = Some (v, r)"
  shows "parse_value (Suc (length s)) (skip_ws s) = Some (v, r)"
proof -
  from enough_all [of m] have "enough parse_value m" by simp
  from enoughD(2) [OF this assms, of "Suc (length s)"] length_skip_ws [of s]
  show ?thesis by simp
qed

section \<open>The allow-list gate\<close>

text \<open>
  C1. When the facade was created with a list of allowed keys and \<open>k\<close> is not in it,
  \<open>setItem\<close>, \<open>getItem\<close> and \<open>removeItem\<close> each throw an \<open>Error\<close> whose message is
  \<open>Key 'k' is not allowed.\<close>, whatever backend is selected (the facade \<open>f\<close> and the
  world \<open>w\<close> are arbitrary). The source throws a plain \<open>Error\<close>; there is no error
  class of its own.
\<close>

theorem disallowed_key_raises:
  "allowedKeys f = Some ks \<Longrightarrow> k \<notin> set ks \<Longrightarrow>
     fst (setItem f k v w) = Inl (Error (js ''Key '' @ [0x27] @ k @ [0x27] @ js '' is not allowed.''))
     \<and> fst (getItem f k w) = Inl (Error (js ''Key '' @ [0x27] @ k @ [0x27] @ js '' is not allowed.''))
     \<and> fst (removeItem f k w) = Inl (Error (js ''Key '' @ [0x27] @ k @ [0x27] @ js '' is not allowed.''))"
  by (simp add: setItem_def getItem_def removeItem_def not_allowed_def not_allowed_message_def)

theorem disallowed_key_raises_witness:
  "allowedKeys (createClientStorage (Some [js ''name'', js ''age''])) = Some [js ''name'', js ''age'']
   \<and> js ''role'' \<notin> set [js ''name'', js ''age'']
   \<and> fst (setItem (createClientStorage (Some [js ''name'', js ''age''])) (js ''role'') (js ''Admin'') (fresh_world 0))
       = Inl (Error (js ''Key '' @ [0x27] @ js ''role'' @ [0x27] @ js '' is not allowed.''))
   \<and> fst (getItem (createClientStorage (Some [js ''name'', js ''age''])) (js ''role'') (fresh_world 0))
       = Inl (Error (js ''Key '' @ [0x27] @ js ''role'' @ [0x27] @ js '' is not allowed.''))
   \<and> fst (removeItem (createClientStorage (Some [js ''name'', js ''age''])) (js ''role'') (fresh_world 0))
       = Inl (Error (js ''Key '' @ [0x27] @ js ''role'' @ [0x27] @ js '' is not allowed.''))"
proof -
  have a: "allowedKeys (createClientStorage (Some [js ''name'', js ''age''])) = Some [js ''name'', js ''age'']"
    by (simp add: createClientStorage_def)
  have b: "js ''role'' \<notin> set [js ''name'', js ''age'']"
    by (simp add: js_eq_iff)
  show ?thesis
    using a b disallowed_key_raises [OF a b, of "js ''Admin''" "fresh_world 0"] by simp
qed

text \<open>
  C10. A call that fails the allow-list check returns the world it was given: the native
  stores, the cookie jar and the heap are what they were, and the trace has no new
  event, so no host primitive was called, neither a read nor a write.
\<close>

theorem disallowed_key_touches_nothing:
  "allowedKeys f = Some ks \<Longrightarrow> k \<notin> set ks \<Longrightarrow>
     snd (setItem f k v w) = w \<and> snd (getItem f k w) = w \<and> snd (removeItem f k w) = w"
  by (simp add: setItem_def getItem_def removeItem_def not_allowed_def)

theorem disallowed_key_touches_nothing_witness:
  "allowedKeys (createClientStorage (Some [])) = Some []
   \<and> js ''a'' \<notin> set []
   \<and> snd (setItem (createClientStorage (Some [])) (js ''a'') (js ''1'') (fresh_world 0)) = fresh_world 0
   \<and> snd (getItem (createClientStorage (Some [])) (js ''a'') (fresh_world 0)) = fresh_world 0
   \<and> snd (removeItem (createClientStorage (Some [])) (js ''a'') (fresh_world 0)) = fresh_world 0"
proof -
  have a: "allowedKeys (createClientStorage (Some [])) = Some []"
    by (simp add: createClientStorage_def)
  have b: "js ''a'' \<notin> set []"
    by simp
  show ?thesis
    using a disallowed_key_touches_nothing [OF a b, of "js ''1''" "fresh_world 0"] by simp
qed

section \<open>Objects as property lists\<close>

lemma map_of_replace:
  "map_of (map (\<lambda>(k', v'). if k' = k then (k', v) else (k', v')) ps) x
     = (if x = k \<and> k \<in> fst ` set ps then Some v else map_of ps x)"
proof (induction ps)
  case Nil
  show ?case by simp
next
  case (Cons p ps)
  obtain a b where p: "p = (a, b)" by (cases p)
  from Cons show ?case by (auto simp: p) (metis fst_conv image_eqI)
qed

lemma map_of_insert_index:
  "k \<notin> fst ` set ps \<Longrightarrow> map_of (insert_index k v ps) x = (if x = k then Some v else map_of ps x)"
  by (induction k v ps rule: insert_index.induct) auto

lemma map_of_snoc:
  "map_of (ps @ [(k, v)]) x = (case map_of ps x of Some y \<Rightarrow> Some y | None \<Rightarrow> if x = k then Some v else None)"
  by (induction ps) auto

lemma map_of_obj_define: "map_of (obj_define ps k v) x = (if x = k then Some v else map_of ps x)"
proof (cases "k \<in> fst ` set ps")
  case True
  thus ?thesis by (simp add: obj_define_def map_of_replace)
next
  case False
  hence "map_of ps k = None" by (simp add: map_of_eq_None_iff)
  with False show ?thesis
    by (simp add: obj_define_def map_of_insert_index map_of_snoc split: option.splits del: map_of_append)
qed

lemma map_of_define_all:
  "map_of (define_all acc ps) x = (case map_of (rev ps) x of Some y \<Rightarrow> Some y | None \<Rightarrow> map_of acc x)"
proof (induction ps arbitrary: acc)
  case Nil
  show ?case by (simp add: define_all_def)
next
  case (Cons p ps)
  obtain k v where p: "p = (k, v)" by (cases p)
  have "define_all acc (p # ps) = define_all (obj_define acc k v) ps"
    by (simp add: define_all_def p)
  thus ?case
    by (simp add: Cons.IH map_of_obj_define p map_of_snoc split: option.splits del: map_of_append)
qed

lemma set_insert_index: "set (insert_index k v ps) = insert (k, v) (set ps)"
  by (induction k v ps rule: insert_index.induct) (simp_all add: insert_commute)

lemma replace_entry:
  "(k', u) \<in> set (map (\<lambda>(k', v'). if k' = k then (k', v) else (k', v')) ps) \<Longrightarrow>
     (k' = k \<and> u = v) \<or> (k' \<noteq> k \<and> (k', u) \<in> set ps)"
  by (induction ps) (auto split: if_splits)

lemma keys_replace:
  "map fst (map (\<lambda>(k', v'). if k' = k then (k', v) else (k', v')) ps) = map fst ps"
  by (induction ps) auto

lemma obj_define_key: "k \<in> fst ` set (obj_define ps k v)"
proof (cases "k \<in> fst ` set ps")
  case True
  hence "k \<in> set (map fst ps)" by simp
  hence "k \<in> set (map fst (map (\<lambda>(k', v'). if k' = k then (k', v) else (k', v')) ps))"
    by (simp only: keys_replace)
  hence "k \<in> fst ` set (map (\<lambda>(k', v'). if k' = k then (k', v) else (k', v')) ps)"
    by (simp only: set_map)
  with True show ?thesis by (simp only: obj_define_def if_True)
next
  case False
  thus ?thesis by (simp add: obj_define_def set_insert_index)
qed

lemma obj_define_entry:
  "(k', u) \<in> set (obj_define ps k v) \<Longrightarrow> (k' = k \<and> u = v) \<or> (k' \<noteq> k \<and> (k', u) \<in> set ps)"
proof (cases "k \<in> fst ` set ps")
  case True
  assume "(k', u) \<in> set (obj_define ps k v)"
  with True have "(k', u) \<in> set (map (\<lambda>(k', v'). if k' = k then (k', v) else (k', v')) ps)"
    by (simp only: obj_define_def if_True)
  thus ?thesis by (rule replace_entry)
next
  case False
  assume "(k', u) \<in> set (obj_define ps k v)"
  with False have "(k', u) = (k, v) \<or> (k', u) \<in> set ps"
    by (simp add: obj_define_def set_insert_index split: if_splits)
  with False show ?thesis by (force simp: image_iff)
qed

lemma map_of_all_same:
  "k \<in> fst ` set xs \<Longrightarrow> (\<And>u. (k, u) \<in> set xs \<Longrightarrow> u = v) \<Longrightarrow> map_of xs k = Some v"
proof -
  assume a: "k \<in> fst ` set xs" and b: "\<And>u. (k, u) \<in> set xs \<Longrightarrow> u = v"
  from a obtain y where y: "map_of xs k = Some y"
    by (cases "map_of xs k") (auto simp: map_of_eq_None_iff)
  from map_of_SomeD [OF y] b have "y = v" by simp
  with y show ?thesis by simp
qed

lemma lookup_after_define:
  "map_of (define_all [] (obj_define ps k v)) k = Some v"
proof -
  have "map_of (rev (obj_define ps k v)) k = Some v"
  proof (rule map_of_all_same)
    show "k \<in> fst ` set (rev (obj_define ps k v))" using obj_define_key [of k ps v] by simp
  next
    fix u assume "(k, u) \<in> set (rev (obj_define ps k v))"
    thus "u = v" using obj_define_entry [of k u ps k v] by simp
  qed
  thus ?thesis by (simp add: map_of_define_all)
qed

lemma lookup_after_delete:
  "map_of (define_all [] (obj_delete ps k)) k = None"
proof -
  have "map_of (rev (obj_delete ps k)) k = None"
    by (auto simp: map_of_eq_None_iff obj_delete_def)
  thus ?thesis by (simp add: map_of_define_all)
qed

lemma strings_only_obj_define:
  "strings_only ps \<Longrightarrow> strings_only (obj_define ps k (JStr s))"
proof -
  assume a: "strings_only ps"
  show ?thesis
    unfolding strings_only_def list_all_iff
  proof (clarify)
    fix k' v' assume "(k', v') \<in> set (obj_define ps k (JStr s))"
    from obj_define_entry [OF this] a show "is_string v'"
      by (auto simp: strings_only_def list_all_iff is_string_def)
  qed
qed

lemma strings_only_obj_delete:
  "strings_only ps \<Longrightarrow> strings_only (obj_delete ps k)"
  by (auto simp: strings_only_def obj_delete_def list_all_iff)

section \<open>The JSON path of the facade on a native store\<close>

lemma native_log: "native i (log e w) = native i w"
  by (cases i) (simp_all add: native_def log_def)

lemma native_native_update: "native i (native_update j m w) = (if i = j then m else native i w)"
  by (cases i; cases j) (simp_all add: native_def native_update_def)

lemma strings_only_root_object: "root_ok r \<Longrightarrow> strings_only (root_object r)"
  by (auto simp: root_ok_def root_object_def strings_only_def split: option.splits if_splits sum.splits json.splits)

lemma obj_assign_define: "k \<noteq> js ''__proto__'' \<Longrightarrow> obj_assign ps k v = obj_define ps k (JStr v)"
  by (simp add: obj_assign_def)

lemma obj_define_empty: "obj_define [] k v = [(k, v)]"
  by (simp add: obj_define_def)

lemma setItem_native:
  assumes "storage f = Native i" "\<not> direct f" "\<not> not_allowed f k" "k \<noteq> js ''__proto__''"
    and "root_ok (native i w STORAGE_NAME)"
  shows "setItem f k v w =
           native_setItem i STORAGE_NAME
             (JSON_stringify (JObj (obj_define (root_object (native i w STORAGE_NAME)) k (JStr v))))
             (log (NativeGet i STORAGE_NAME) w)"
proof (cases "native i w STORAGE_NAME")
  case None
  with assms show ?thesis
    by (simp add: setItem_def storage_getItem_def storage_setItem_def native_getItem_def root_object_def)
next
  case (Some s)
  show ?thesis
  proof (cases "s = []")
    case True
    with Some assms show ?thesis
      by (simp add: setItem_def storage_getItem_def storage_setItem_def native_getItem_def root_object_def)
  next
    case False
    with Some assms(5) obtain ps where ps: "JSON_parse s = Inr (JObj ps)"
      by (auto simp: root_ok_def split: sum.splits json.splits)
    with Some False assms show ?thesis
      by (simp add: setItem_def storage_getItem_def storage_setItem_def native_getItem_def
            root_object_def js_assign_def obj_assign_define)
  qed
qed

lemma stringify_object_nonempty: "JSON_stringify (JObj ps) \<noteq> []"
  by simp

lemma getItem_native:
  assumes "storage f = Native i" "\<not> direct f" "\<not> not_allowed f k"
    and "native i w STORAGE_NAME = Some (JSON_stringify (JObj ps))" "strings_only ps"
  shows "fst (getItem f k w) = Inr (or_null (obj_get (define_all [] ps) k))"
  using assms JSON_parse_stringify [OF assms(5)]
  by (simp add: getItem_def storage_getItem_def native_getItem_def js_get_def
           del: JSON_stringify.simps add: stringify_object_nonempty)

lemma getItem_after_setItem_native:
  assumes "storage f = Native i" "\<not> direct f" "\<not> not_allowed f k" "k \<noteq> js ''__proto__''"
    and "root_ok (native i w STORAGE_NAME)"
  shows "fst (getItem f k (snd (setItem f k v w))) = Inr (or_null (Value (JStr v)))"
proof -
  let ?ps = "obj_define (root_object (native i w STORAGE_NAME)) k (JStr v)"
  have s: "setItem f k v w =
           native_setItem i STORAGE_NAME (JSON_stringify (JObj ?ps)) (log (NativeGet i STORAGE_NAME) w)"
    using assms by (intro setItem_native) simp_all
  have so: "strings_only ?ps"
    using assms(5) by (intro strings_only_obj_define strings_only_root_object)
  have n: "native i (snd (setItem f k v w)) STORAGE_NAME = Some (JSON_stringify (JObj ?ps))"
    unfolding s by (simp add: native_setItem_def native_log native_native_update del: JSON_stringify.simps)
  have g: "fst (getItem f k (snd (setItem f k v w))) = Inr (or_null (obj_get (define_all [] ?ps) k))"
    using assms(1-3) n so by (rule getItem_native)
  have "obj_get (define_all [] ?ps) k = Value (JStr v)"
    by (simp add: obj_get_def lookup_after_define)
  with g show ?thesis by simp
qed


section \<open>Round trip on the persistent and session backends\<close>

text \<open>
  C2, as amended. On the persistent and the session backend (\<open>storage f\<close> is a native
  store and the facade takes the JSON path), for an allowed key other than \<open>__proto__\<close>
  and a non-empty value, when the root entry is missing, empty, or the JSON text of a
  record of strings: \<open>setItem\<close> succeeds and the following \<open>getItem\<close> returns the
  value.
\<close>

theorem native_round_trip:
  assumes "storage f = Native i" "\<not> direct f" "\<not> not_allowed f k" "k \<noteq> js ''__proto__''"
    and "v \<noteq> []" "root_ok (native i w STORAGE_NAME)"
  shows "fst (setItem f k v w) = Inr ()
         \<and> fst (getItem f k (snd (setItem f k v w))) = Inr (Value (JStr v))"
proof -
  have "fst (setItem f k v w) = Inr ()"
    using assms by (simp add: setItem_native native_setItem_def del: JSON_stringify.simps)
  moreover have "fst (getItem f k (snd (setItem f k v w))) = Inr (or_null (Value (JStr v)))"
    using assms by (intro getItem_after_setItem_native) simp_all
  ultimately show ?thesis
    using assms(5) by (simp add: or_null_def truthy_def)
qed

theorem native_round_trip_witness:
  "storage (fst (setStorage (js ''localStorage'') (createClientStorage None, fresh_world 0))) = Native Local
   \<and> \<not> direct (fst (setStorage (js ''localStorage'') (createClientStorage None, fresh_world 0)))
   \<and> \<not> not_allowed (fst (setStorage (js ''localStorage'') (createClientStorage None, fresh_world 0))) (js ''name'')
   \<and> js ''name'' \<noteq> js ''__proto__''
   \<and> js ''Alice'' \<noteq> []
   \<and> root_ok (native Local (fresh_world 0) STORAGE_NAME)
   \<and> fst (setItem (fst (setStorage (js ''localStorage'') (createClientStorage None, fresh_world 0)))
             (js ''name'') (js ''Alice'') (fresh_world 0)) = Inr ()
   \<and> fst (getItem (fst (setStorage (js ''localStorage'') (createClientStorage None, fresh_world 0)))
             (js ''name'')
             (snd (setItem (fst (setStorage (js ''localStorage'') (createClientStorage None, fresh_world 0)))
                     (js ''name'') (js ''Alice'') (fresh_world 0))))
       = Inr (Value (JStr (js ''Alice'')))"
proof -
  let ?f = "fst (setStorage (js ''localStorage'') (createClientStorage None, fresh_world 0))"
  have a: "storage ?f = Native Local"
    by (simp add: setStorage_def js_eq_iff)
  have b: "\<not> direct ?f"
    by (simp add: setStorage_def direct_def js_eq_iff)
  have c: "\<not> not_allowed ?f (js ''name'')"
    by (simp add: setStorage_def not_allowed_def createClientStorage_def js_eq_iff)
  have d: "js ''name'' \<noteq> js ''__proto__''"
    by (simp add: js_eq_iff)
  have e: "js ''Alice'' \<noteq> []"
    by (simp add: js_def)
  have g: "root_ok (native Local (fresh_world 0) STORAGE_NAME)"
    by (simp add: root_ok_def native_def fresh_world_def)
  from a b c d e g native_round_trip [OF a b c d e g] show ?thesis
    by (simp only: simp_thms)
qed


text \<open>
  C2 as stated fails for the empty string: the facade returns \<open>parsed[key] || null\<close>,
  and the empty string is falsy. On the default (session) backend of a fresh page,
  \<open>setItem('a', '')\<close> followed by \<open>getItem('a')\<close> gives \<open>null\<close>.
\<close>

theorem empty_string_reads_null:
  "fst (getItem (createClientStorage None) (js ''a'')
          (snd (setItem (createClientStorage None) (js ''a'') (js '''') (fresh_world 0))))
     = Inr (Value JNull)"
proof -
  let ?f = "createClientStorage None"
  have a: "storage ?f = Native Session"
    by (simp add: createClientStorage_def)
  have b: "\<not> direct ?f"
    by (simp add: createClientStorage_def direct_def js_eq_iff)
  have c: "\<not> not_allowed ?f (js ''a'')"
    by (simp add: not_allowed_def createClientStorage_def)
  have d: "js ''a'' \<noteq> js ''__proto__''"
    by (simp add: js_eq_iff)
  have g: "root_ok (native Session (fresh_world 0) STORAGE_NAME)"
    by (simp add: root_ok_def native_def fresh_world_def)
  show ?thesis
    using getItem_after_setItem_native [OF a b c d g, of "js ''''"]
    by (simp add: or_null_def truthy_def js_def)
qed

section \<open>An unrecognised backend kind\<close>

lemma setStorage_unrecognized:
  assumes "storeName \<notin> {js ''cookieStorage'', js ''memoryStorage'', js ''localStorage'', js ''sessionStorage''}"
  shows "setStorage storeName (f, w) = (f\<lparr>storageType := storeName, storage := Native Session\<rparr>, w)"
  using assms by (simp add: setStorage_def)

lemma setStorage_session:
  "setStorage (js ''sessionStorage'') (f, w) = (f\<lparr>storageType := js ''sessionStorage'', storage := Native Session\<rparr>, w)"
  by (simp add: setStorage_def js_eq_iff)

lemma setStorage_local:
  "setStorage (js ''localStorage'') (f, w) = (f\<lparr>storageType := js ''localStorage'', storage := Native Local\<rparr>, w)"
  by (simp add: setStorage_def js_eq_iff)

lemma facade_ops_cong:
  assumes "allowedKeys f1 = allowedKeys f2" "direct f1 = direct f2" "storage f1 = storage f2"
  shows "setItem f1 = setItem f2" and "getItem f1 = getItem f2" and "removeItem f1 = removeItem f2"
proof -
  have n: "not_allowed f1 = not_allowed f2"
    using assms(1) by (simp add: not_allowed_def fun_eq_iff)
  show "setItem f1 = setItem f2"
    unfolding setItem_def n assms(2) assms(3) ..
  show "getItem f1 = getItem f2"
    unfolding getItem_def n assms(2) assms(3) ..
  show "removeItem f1 = removeItem f2"
    unfolding removeItem_def n assms(2) assms(3) ..
qed

lemma not_allowed_setStorage: "not_allowed (fst (setStorage n (f, w))) = not_allowed f"
  by (auto simp: setStorage_def not_allowed_def fun_eq_iff split: prod.splits)

lemma default_facade_facts:
  "storage (createClientStorage ks) = Native Session"
  "\<not> direct (createClientStorage ks)"
  "\<not> not_allowed (createClientStorage None) k"
  by (simp_all add: createClientStorage_def direct_def not_allowed_def js_eq_iff)

lemma local_facade_facts:
  "storage (fst (setStorage (js ''localStorage'') (f, w))) = Native Local"
  "\<not> direct (fst (setStorage (js ''localStorage'') (f, w)))"
  "fst (setStorage (js ''localStorage'') (f, w)) = fst (setStorage (js ''localStorage'') (f, w'))"
  by (simp_all add: setStorage_local direct_def js_eq_iff)

lemma root_ok_fresh: "root_ok (native i (fresh_world t) STORAGE_NAME)"
  by (cases i) (simp_all add: root_ok_def native_def fresh_world_def)

lemma not_proto: "js ''a'' \<noteq> js ''__proto__''" "js ''name'' \<noteq> js ''__proto__''"
  by (simp_all add: js_eq_iff)


text \<open>
  C6. \<open>setStorage\<close> with a name other than the four kinds leaves the world as it is
  (it has no failing step: nothing in it can throw), binds \<open>storage\<close> to the session
  store, and from then on \<open>setItem\<close>, \<open>getItem\<close> and \<open>removeItem\<close> are the same
  functions of key, value and world as after \<open>setStorage('sessionStorage')\<close>.
\<close>

theorem unrecognized_kind_is_session:
  assumes "storeName \<notin> {js ''cookieStorage'', js ''memoryStorage'', js ''localStorage'', js ''sessionStorage''}"
  shows "snd (setStorage storeName (f, w)) = w
         \<and> storage (fst (setStorage storeName (f, w))) = Native Session
         \<and> setItem (fst (setStorage storeName (f, w))) = setItem (fst (setStorage (js ''sessionStorage'') (f, w)))
         \<and> getItem (fst (setStorage storeName (f, w))) = getItem (fst (setStorage (js ''sessionStorage'') (f, w)))
         \<and> removeItem (fst (setStorage storeName (f, w))) = removeItem (fst (setStorage (js ''sessionStorage'') (f, w)))"
proof -
  let ?f1 = "f\<lparr>storageType := storeName, storage := Native Session\<rparr>"
  let ?f2 = "f\<lparr>storageType := js ''sessionStorage'', storage := Native Session\<rparr>"
  have a: "allowedKeys ?f1 = allowedKeys ?f2" by simp
  have d: "direct ?f1 = direct ?f2" using assms by (simp add: direct_def js_eq_iff)
  have s: "storage ?f1 = storage ?f2" by simp
  from facade_ops_cong [OF a d s] show ?thesis
    by (simp add: setStorage_unrecognized [OF assms] setStorage_session)
qed

theorem unrecognized_kind_is_session_witness:
  "js ''indexedDB'' \<notin> {js ''cookieStorage'', js ''memoryStorage'', js ''localStorage'', js ''sessionStorage''}
   \<and> snd (setStorage (js ''indexedDB'') (createClientStorage None, fresh_world 0)) = fresh_world 0
   \<and> storage (fst (setStorage (js ''indexedDB'') (createClientStorage None, fresh_world 0))) = Native Session
   \<and> setItem (fst (setStorage (js ''indexedDB'') (createClientStorage None, fresh_world 0)))
       = setItem (fst (setStorage (js ''sessionStorage'') (createClientStorage None, fresh_world 0)))
   \<and> getItem (fst (setStorage (js ''indexedDB'') (createClientStorage None, fresh_world 0)))
       = getItem (fst (setStorage (js ''sessionStorage'') (createClientStorage None, fresh_world 0)))
   \<and> removeItem (fst (setStorage (js ''indexedDB'') (createClientStorage None, fresh_world 0)))
       = removeItem (fst (setStorage (js ''sessionStorage'') (createClientStorage None, fresh_world 0)))"
proof -
  have a: "js ''indexedDB'' \<notin> {js ''cookieStorage'', js ''memoryStorage'', js ''localStorage'', js ''sessionStorage''}"
    by (simp add: js_eq_iff)
  from a unrecognized_kind_is_session [OF a, of "createClientStorage None" "fresh_world 0"]
  show ?thesis by (simp only: simp_thms)
qed


section \<open>The memory singleton\<close>

lemma is_memoryE: "is_memory x \<Longrightarrow> \<exists>m. x = MemoryStorage_obj m"
  by (cases x) (simp_all add: is_memory_def)

lemma wf_fresh_world: "wf_world (fresh_world t)"
  by (simp add: wf_world_def fresh_world_def)








section \<open>A session write leaves the other backends alone\<close>

lemma getItem_fst:
  "fst (getItem f key w) =
     (if not_allowed f key then Inl (Error (not_allowed_message key))
      else if direct f then
        (case fst (storage_getItem (storage f) key w) of
           Inl e \<Rightarrow> Inl e
         | Inr r \<Rightarrow> Inr (string_or_null r))
      else (case fst (storage_getItem (storage f) STORAGE_NAME w) of
              Inl e \<Rightarrow> Inl e
            | Inr None \<Rightarrow> Inr (Value JNull)
            | Inr (Some storageValue) \<Rightarrow>
                if storageValue \<noteq> [] then
                  (case JSON_parse storageValue of
                     Inl e \<Rightarrow> Inl e
                   | Inr parsedVAlue \<Rightarrow>
                       (case js_get parsedVAlue key of
                          Inl e \<Rightarrow> Inl e
                        | Inr x \<Rightarrow> Inr (or_null x)))
                else Inr (Value JNull)))"
  by (simp add: getItem_def split: prod.splits sum.splits option.splits)

lemma storage_getItem_frame:
  "r \<noteq> Native Session \<Longrightarrow>
     fst (storage_getItem r key (w\<lparr>sessionStorage := s, trace := t\<rparr>)) = fst (storage_getItem r key w)"
  by (cases r)
     (auto simp: storage_getItem_def native_getItem_def native_def CookieStorage_getItem_def
         MemoryStorage_getItem_def log_def
       split: store_id.splits obj.splits sum.splits prod.splits)

lemma getItem_frame:
  "storage f \<noteq> Native Session \<Longrightarrow>
     fst (getItem f key (w\<lparr>sessionStorage := s, trace := t\<rparr>)) = fst (getItem f key w)"
  by (simp add: getItem_fst storage_getItem_frame)

lemma setStorage_frame:
  "setStorage n (f, w\<lparr>sessionStorage := s, trace := t\<rparr>)
     = (fst (setStorage n (f, w)), (snd (setStorage n (f, w)))\<lparr>sessionStorage := s, trace := t\<rparr>)"
  by (simp add: setStorage_def new_CookieStorage_def new_MemoryStorage_def split: option.splits)

lemma session_write_shape:
  assumes "storage f = Native Session" "\<not> direct f"
  shows "\<exists>s t. snd (setItem f k v w) = w\<lparr>sessionStorage := s, trace := t\<rparr>"
proof -
  define P where "P w' \<longleftrightarrow> (\<exists>s t. w' = w\<lparr>sessionStorage := s, trace := t\<rparr>)" for w'
  have p0: "P w"
    unfolding P_def by (rule exI [of _ "sessionStorage w"], rule exI [of _ "trace w"]) simp
  have p1: "P (log e w)" for e
    unfolding P_def by (rule exI [of _ "sessionStorage w"], rule exI [of _ "trace w @ [e]"]) (simp add: log_def)
  have p2: "P (snd (native_setItem Session STORAGE_NAME x (log e w)))" for e x
    unfolding P_def
    by (rule exI [of _ "(sessionStorage w)(STORAGE_NAME \<mapsto> x)"],
        rule exI [of _ "trace w @ [e, NativeSet Session STORAGE_NAME x]"])
       (simp add: native_setItem_def log_def native_update_def native_def)
  have "P (snd (setItem f k v w))"
    using assms
    by (simp add: setItem_def storage_getItem_def storage_setItem_def native_getItem_def p0 p1 p2
          split: option.splits sum.splits del: JSON_stringify.simps)
  thus ?thesis by (simp add: P_def)
qed

lemma storage_after_setStorage:
  "n \<in> {js ''localStorage'', js ''memoryStorage'', js ''cookieStorage''} \<Longrightarrow>
     storage (fst (setStorage n (f, w))) \<noteq> Native Session"
  by (auto simp: setStorage_def js_eq_iff split: prod.splits)


text \<open>
  C7, as amended. With the session backend selected, \<open>setItem\<close> changes nothing but the
  session store (and the trace): the persistent store, the cookie jar and the heap, which
  holds the memory map, are as before. So after switching to the persistent, memory or
  cookie backend, \<open>getItem\<close> of any key returns what it would have returned had the
  session write not happened. Nothing is migrated, nothing of the session store is exposed.
\<close>

theorem session_write_is_local_to_session:
  assumes "storage f = Native Session" "\<not> direct f"
    and "target \<in> {js ''localStorage'', js ''memoryStorage'', js ''cookieStorage''}"
  shows "localStorage (snd (setItem f k v w)) = localStorage w
         \<and> cookie_jar (snd (setItem f k v w)) = cookie_jar w
         \<and> heap (snd (setItem f k v w)) = heap w
         \<and> fst (getItem (fst (setStorage target (f, snd (setItem f k v w)))) k'
                  (snd (setStorage target (f, snd (setItem f k v w)))))
             = fst (getItem (fst (setStorage target (f, w))) k' (snd (setStorage target (f, w))))"
proof -
  from session_write_shape [OF assms(1,2)] obtain s t
    where w': "snd (setItem f k v w) = w\<lparr>sessionStorage := s, trace := t\<rparr>" by blast
  have "fst (getItem (fst (setStorage target (f, w))) k'
               ((snd (setStorage target (f, w)))\<lparr>sessionStorage := s, trace := t\<rparr>))
          = fst (getItem (fst (setStorage target (f, w))) k' (snd (setStorage target (f, w))))"
    by (rule getItem_frame) (rule storage_after_setStorage [OF assms(3)])
  thus ?thesis
    by (simp add: w' setStorage_frame)
qed

theorem session_write_is_local_to_session_witness:
  "storage (createClientStorage None) = Native Session
   \<and> \<not> direct (createClientStorage None)
   \<and> js ''localStorage'' \<in> {js ''localStorage'', js ''memoryStorage'', js ''cookieStorage''}
   \<and> localStorage (snd (setItem (createClientStorage None) (js ''a'') (js ''1'') (fresh_world 0)))
       = localStorage (fresh_world 0)
   \<and> cookie_jar (snd (setItem (createClientStorage None) (js ''a'') (js ''1'') (fresh_world 0)))
       = cookie_jar (fresh_world 0)
   \<and> heap (snd (setItem (createClientStorage None) (js ''a'') (js ''1'') (fresh_world 0)))
       = heap (fresh_world 0)
   \<and> fst (getItem
            (fst (setStorage (js ''localStorage'')
                    (createClientStorage None,
                     snd (setItem (createClientStorage None) (js ''a'') (js ''1'') (fresh_world 0)))))
            (js ''a'')
            (snd (setStorage (js ''localStorage'')
                    (createClientStorage None,
                     snd (setItem (createClientStorage None) (js ''a'') (js ''1'') (fresh_world 0))))))
       = fst (getItem (fst (setStorage (js ''localStorage'') (createClientStorage None, fresh_world 0)))
                (js ''a'')
                (snd (setStorage (js ''localStorage'') (createClientStorage None, fresh_world 0))))"
proof -
  have t: "js ''localStorage'' \<in> {js ''localStorage'', js ''memoryStorage'', js ''cookieStorage''}"
    by simp
  from default_facade_facts(1) [of None] default_facade_facts(2) [of None] t
    session_write_is_local_to_session [OF default_facade_facts(1) default_facade_facts(2) t,
      of None "js ''a''" "js ''1''" "fresh_world 0" "js ''a''"]
  show ?thesis by (simp only: simp_thms)
qed


text \<open>
  C7 as stated fails when the other backend already holds the value: on a page where
  \<open>a\<close> was stored as \<open>1\<close> through the persistent backend, writing \<open>a = 1\<close> under the
  session backend and switching to the persistent backend makes \<open>getItem('a')\<close>
  return \<open>1\<close>.
\<close>

theorem persistent_value_visible_after_switch:
  "fst (getItem
          (fst (setStorage (js ''localStorage'')
                  (createClientStorage None,
                   snd (setItem (createClientStorage None) (js ''a'') (js ''1'') local_holds_a1))))
          (js ''a'')
          (snd (setStorage (js ''localStorage'')
                  (createClientStorage None,
                   snd (setItem (createClientStorage None) (js ''a'') (js ''1'') local_holds_a1)))))
     = Inr (Value (JStr (js ''1'')))"
proof -
  let ?fl = "fst (setStorage (js ''localStorage'') (createClientStorage None, fresh_world 0))"
  let ?W = "snd (setItem (createClientStorage None) (js ''a'') (js ''1'') local_holds_a1)"
  have n: "\<not> not_allowed ?fl (js ''a'')"
    by (simp add: not_allowed_setStorage default_facade_facts(3))
  have "fst (getItem ?fl (js ''a'') local_holds_a1) = Inr (or_null (Value (JStr (js ''1''))))"
    unfolding local_holds_a1_def
    by (rule getItem_after_setItem_native [OF local_facade_facts(1) local_facade_facts(2) n not_proto(1) root_ok_fresh])
  hence a1: "fst (getItem ?fl (js ''a'') local_holds_a1) = Inr (Value (JStr (js ''1'')))"
    by (simp add: or_null_def truthy_def js_def)
  from session_write_shape [OF default_facade_facts(1) default_facade_facts(2)] obtain s t
    where w: "?W = local_holds_a1\<lparr>sessionStorage := s, trace := t\<rparr>" by blast
  have "fst (getItem ?fl (js ''a'') ?W) = fst (getItem ?fl (js ''a'') local_holds_a1)"
    unfolding w by (rule getItem_frame) (simp add: local_facade_facts(1))
  with a1 have "fst (getItem ?fl (js ''a'') ?W) = Inr (Value (JStr (js ''1'')))" by simp
  moreover have "fst (setStorage (js ''localStorage'') (createClientStorage None, ?W)) = ?fl"
    by (rule local_facade_facts(3))
  moreover have "snd (setStorage (js ''localStorage'') (createClientStorage None, ?W)) = ?W"
    by (simp add: setStorage_local)
  ultimately show ?thesis by (simp only:)
qed


section \<open>The cookie store\<close>

subsection \<open>Reading and assigning \<open>document.cookie\<close>\<close>

lemma Decode_plain: "0x25 \<notin> set (drop k s) \<Longrightarrow> Decode s k = Inr (drop k s)"
proof (induction s k rule: Decode.induct)
  case (1 s k)
  show ?case
  proof (cases "length s \<le> k")
    case True
    thus ?thesis by (subst Decode.simps) simp
  next
    case False
    hence d: "drop k s = s ! k # drop (Suc k) s"
      by (simp add: Cons_nth_drop_Suc)
    with "1.prems" have n: "s ! k \<noteq> 0x25" and r: "0x25 \<notin> set (drop (k + 1) s)"
      by auto
    from "1.IH"(1) [OF False n r] have "Decode s (k + 1) = Inr (drop (k + 1) s)" .
    with False n d show ?thesis
      by (subst Decode.simps) (simp add: prepend_def)
  qed
qed

lemma decodeURIComponent_plain: "0x25 \<notin> set s \<Longrightarrow> decodeURIComponent s = Inr s"
  using Decode_plain [of 0 s] by (simp add: decodeURIComponent_def)

lemma split_on_plain: "sep \<notin> set s \<Longrightarrow> split_on sep s = [s]"
  by (induction s) auto

lemma starts_with_append: "starts_with (xs @ ys) xs"
  by (induction xs) auto

lemma storage_name_facts:
  "0x3B \<notin> set STORAGE_NAME" "0x3D \<notin> set STORAGE_NAME" "0x25 \<notin> set STORAGE_NAME"
  "trim_wsp STORAGE_NAME = STORAGE_NAME"
  "dropWhile (\<lambda>c. c = 0x20) (STORAGE_NAME @ r) = STORAGE_NAME @ r"
  by (simp_all add: STORAGE_NAME_def js_def trim_wsp_def is_wsp_def)

lemma js_single: "js ''='' = [0x3D]" "js '';'' = [0x3B]"
  by (simp_all add: js_def)

lemma cookie_read_empty:
  "cookie_jar w = [] \<Longrightarrow> fst (CookieStorage_getItem n w) = Inr []"
  by (simp add: CookieStorage_getItem_def decodeURIComponent_plain js_single)

lemma cookie_read_single:
  assumes "cookie_jar w = [(STORAGE_NAME, p)]" "0x25 \<notin> set p" "0x3B \<notin> set p"
  shows "fst (CookieStorage_getItem STORAGE_NAME w) = Inr p"
proof -
  let ?c = "STORAGE_NAME @ 0x3D # p"
  have d: "decodeURIComponent ?c = Inr ?c"
    using assms(2) storage_name_facts(3) by (intro decodeURIComponent_plain) simp
  have s: "split_on 0x3B ?c = [?c]"
    using assms(3) storage_name_facts(1) by (intro split_on_plain) simp
  have "find_cookie (STORAGE_NAME @ [0x3D]) [?c] = p"
    using starts_with_append [of "STORAGE_NAME @ [0x3D]" p] storage_name_facts(5) [of "0x3D # p"]
    by simp
  thus ?thesis
    by (simp add: CookieStorage_getItem_def assms(1) d s js_single)
qed

lemma trim_wsp_object: "trim_wsp (JSON_stringify (JObj ps)) = JSON_stringify (JObj ps)"
  by (simp add: trim_wsp_def is_wsp_def)

lemma takeWhile_stop: "(\<And>x. x \<in> set xs \<Longrightarrow> P x) \<Longrightarrow> \<not> P y \<Longrightarrow> takeWhile P (xs @ y # ys) = xs"
  by (simp add: takeWhile_append2)

lemma dropWhile_stop: "(\<And>x. x \<in> set xs \<Longrightarrow> P x) \<Longrightarrow> \<not> P y \<Longrightarrow> dropWhile P (xs @ y # ys) = y # ys"
  by (simp add: dropWhile_append2)

lemma cookie_pair_object:
  assumes "0x3B \<notin> set (JSON_stringify (JObj ps))"
  shows "cookie_pair (STORAGE_NAME @ js ''='' @ JSON_stringify (JObj ps) @ js '';'' @ tail)
           = Some (STORAGE_NAME, JSON_stringify (JObj ps))"
proof -
  let ?T = "JSON_stringify (JObj ps)"
  have "takeWhile (\<lambda>c. c \<noteq> 0x3B) ((STORAGE_NAME @ 0x3D # ?T) @ 0x3B # tail) = STORAGE_NAME @ 0x3D # ?T"
    using assms storage_name_facts(1) by (intro takeWhile_stop) auto
  hence nv: "takeWhile (\<lambda>c. c \<noteq> 0x3B) (STORAGE_NAME @ 0x3D # ?T @ 0x3B # tail) = STORAGE_NAME @ 0x3D # ?T"
    by (simp del: JSON_stringify.simps)
  have n: "takeWhile (\<lambda>c. c \<noteq> 0x3D) (STORAGE_NAME @ 0x3D # ?T) = STORAGE_NAME"
    using storage_name_facts(2) by (intro takeWhile_stop) auto
  have v: "dropWhile (\<lambda>c. c \<noteq> 0x3D) (STORAGE_NAME @ 0x3D # ?T) = 0x3D # ?T"
    using storage_name_facts(2) by (intro dropWhile_stop) auto
  have ne: "STORAGE_NAME \<noteq> []" by (simp add: STORAGE_NAME_def js_def)
  show ?thesis
    by (simp add: cookie_pair_def js_single nv n v ne storage_name_facts(4) trim_wsp_object
             del: JSON_stringify.simps)
qed

lemma assign_cookie_object:
  assumes "0x3B \<notin> set (JSON_stringify (JObj ps))"
  shows "assign_cookie (STORAGE_NAME @ js ''='' @ JSON_stringify (JObj ps) @ js '';'' @ tail) j
           = jar_store j STORAGE_NAME (JSON_stringify (JObj ps))"
  by (simp add: assign_cookie_def cookie_pair_object [OF assms] del: JSON_stringify.simps)

lemma cookie_get_snd: "snd (CookieStorage_getItem n w) = log CookieGet w"
  by (simp add: CookieStorage_getItem_def split: sum.splits)

lemma cookie_get_pair:
  "CookieStorage_getItem n w = (fst (CookieStorage_getItem n w), log CookieGet w)"
  using cookie_get_snd [of n w] by (metis prod.collapse)

lemma cookie_get_log: "fst (CookieStorage_getItem n (log e w)) = fst (CookieStorage_getItem n w)"
  by (simp add: CookieStorage_getItem_def log_def split: sum.splits)

lemma getUpdatedTime_eq:
  "getUpdatedTime 7 w = (toUTCString (clock w + 604800000), log DateNow w)"
  by (simp add: getUpdatedTime_def)

lemma clock_log: "clock (log e w) = clock w"
  by (simp add: log_def)

lemma cookie_setItem_cases:
  "CookieStorage_setItem n key val w =
     (case fst (CookieStorage_getItem n w) of
        Inl e \<Rightarrow> (Inl e, log CookieGet (log DateNow w))
      | Inr existingCookie \<Rightarrow>
          (case (if existingCookie \<noteq> [] then JSON_parse existingCookie else Inr (JObj [])) of
             Inl e \<Rightarrow> (Inl e, log CookieGet (log DateNow w))
           | Inr parsed \<Rightarrow>
               (case js_assign parsed key val of
                  Inl e \<Rightarrow> (Inl e, log CookieGet (log DateNow w))
                | Inr cookieJson \<Rightarrow>
                    write_cookie
                      (n @ js ''='' @ JSON_stringify cookieJson @ js '';''
                       @ (js ''expires='' @ toUTCString (clock w + 604800000)) @ js '';path=/'')
                      (log CookieGet (log DateNow w)))))"
  unfolding CookieStorage_setItem_def getUpdatedTime_eq
  by (subst cookie_get_pair) (simp add: cookie_get_log split: sum.splits)

lemma cookie_removeItem_cases:
  "CookieStorage_removeItem n key w =
     (case fst (CookieStorage_getItem n w) of
        Inl e \<Rightarrow> (Inl e, log CookieGet (log DateNow w))
      | Inr existingCookie \<Rightarrow>
          (case (if existingCookie \<noteq> []
                 then (case JSON_parse existingCookie of
                         Inl e \<Rightarrow> Inl e
                       | Inr parsed \<Rightarrow> js_delete parsed key)
                 else Inr (JObj [])) of
             Inl e \<Rightarrow> (Inl e, log CookieGet (log DateNow w))
           | Inr cookieJson \<Rightarrow>
               write_cookie
                 (n @ js ''='' @ JSON_stringify cookieJson @ js '';''
                  @ (js ''expires='' @ toUTCString (clock w + 604800000)) @ js '';path=/'')
                 (log CookieGet (log DateNow w))))"
  unfolding CookieStorage_removeItem_def getUpdatedTime_eq
  by (subst cookie_get_pair) (simp add: cookie_get_log split: sum.splits)

lemma heap_write_cookie: "heap (snd (write_cookie str w)) = heap w"
  by (simp add: write_cookie_def log_def)

lemma jar_write_cookie: "cookie_jar (snd (write_cookie str w)) = assign_cookie str (cookie_jar w)"
  by (simp add: write_cookie_def log_def)

lemma jar_log: "cookie_jar (log e w) = cookie_jar w"
  by (simp add: log_def)

lemma heap_log: "heap (log e w) = heap w"
  by (simp add: log_def)

lemma jar_store_single: "jar_store [] n v = [(n, v)]" "jar_store [(n, p)] n v = [(n, v)]"
  by (simp_all add: jar_store_def)


subsection \<open>Reading a jar that holds other cookies, and a jar that does not decode\<close>


lemma Decode_bad_escape:
  assumes "0x25 \<notin> set xs" "k \<le> length xs"
    and "case rest of a # b # r \<Rightarrow> hex_val a = None \<or> hex_val b = None | _ \<Rightarrow> True"
  shows "Decode (xs @ 0x25 # rest) k = Inl URIError"
  using assms(2)
proof (induction "length xs - k" arbitrary: k)
  case 0
  hence k: "k = length xs" by simp
  have "percent_octet (xs @ 0x25 # rest) (length xs) = None"
    using assms(3) by (auto simp: percent_octet_def nth_append split: list.splits option.splits)
  thus ?case
    by (subst Decode.simps) (simp add: k)
next
  case (Suc m)
  hence lt: "k < length xs" and m: "m = length xs - (k + 1)" and le: "k + 1 \<le> length xs" by auto
  from lt have "xs ! k \<in> set xs" by (rule nth_mem)
  with assms(1) have "xs ! k \<noteq> 0x25" by auto
  with lt have n: "(xs @ 0x25 # rest) ! k \<noteq> 0x25"
    by (simp add: nth_append)
  have "Decode (xs @ 0x25 # rest) (k + 1) = Inl URIError"
    by (rule Suc.hyps(1) [OF m le])
  with n lt show ?case
    by (subst Decode.simps) (simp add: prepend_def)
qed










subsection \<open>The facade on the cookie backend\<close>

lemma cookie_backendD:
  assumes "cookie_backend f w"
  shows "direct f"
    and "storage_getItem (storage f) key w =
           (case CookieStorage_getItem STORAGE_NAME w of
              (Inl e, w') \<Rightarrow> (Inl e, w')
            | (Inr s, w') \<Rightarrow> (Inr (Some s), w'))"
    and "storage_setItem (storage f) key val w = CookieStorage_setItem STORAGE_NAME key val w"
    and "storage_removeItem (storage f) key w = CookieStorage_removeItem STORAGE_NAME key w"
  using assms
  by (auto simp: cookie_backend_def direct_def storage_getItem_def storage_setItem_def
        storage_removeItem_def split: storage_ref.splits)

lemma getItem_cookie:
  assumes "cookie_backend f w" "\<not> not_allowed f k"
  shows "getItem f k w =
           ((case fst (CookieStorage_getItem STORAGE_NAME w) of
               Inl e \<Rightarrow> Inl e
             | Inr s \<Rightarrow> Inr (Value (JStr s))),
            log CookieGet w)"
  using assms(2) cookie_backendD(1,2) [OF assms(1)]
  by (subst (asm) cookie_get_pair)
     (simp add: getItem_def string_or_null_def split: sum.splits)

lemma setItem_cookie:
  assumes "cookie_backend f w" "\<not> not_allowed f k"
  shows "setItem f k v w = CookieStorage_setItem STORAGE_NAME k v w"
  using assms cookie_backendD(1,3) [OF assms(1)] by (simp add: setItem_def)

lemma removeItem_cookie:
  assumes "cookie_backend f w" "\<not> not_allowed f k"
  shows "removeItem f k w = CookieStorage_removeItem STORAGE_NAME k w"
  using assms cookie_backendD(1,4) [OF assms(1)] by (simp add: removeItem_def)

lemma cookie_backend_heap: "heap w' = heap w \<Longrightarrow> cookie_backend f w \<Longrightarrow> cookie_backend f w'"
  by (auto simp: cookie_backend_def split: storage_ref.splits)

lemma setStorage_cookie:
  assumes "wf_world w"
  shows "cookie_backend (fst (setStorage (js ''cookieStorage'') (f, w))) (snd (setStorage (js ''cookieStorage'') (f, w)))"
    and "cookie_jar (snd (setStorage (js ''cookieStorage'') (f, w))) = cookie_jar w"
    and "wf_world (snd (setStorage (js ''cookieStorage'') (f, w)))"
  using assms
  by (auto simp: setStorage_def new_CookieStorage_def cookie_backend_def wf_world_def
        nth_append split: option.splits)

lemma cookie_first_set:
  assumes "cookie_backend f w" "\<not> not_allowed f k" "k \<noteq> js ''__proto__''" "cookie_jar w = []"
    and "0x3B \<notin> set (JSON_stringify (JObj [(k, JStr v)]))"
  shows "fst (setItem f k v w) = Inr ()"
    and "cookie_jar (snd (setItem f k v w)) = [(STORAGE_NAME, JSON_stringify (JObj [(k, JStr v)]))]"
    and "cookie_backend f (snd (setItem f k v w))"
proof -
  have r: "fst (CookieStorage_getItem STORAGE_NAME w) = Inr []"
    using assms(4) by (rule cookie_read_empty)
  have o: "obj_assign [] k v = [(k, JStr v)]"
    using assms(3) by (simp add: obj_assign_define obj_define_empty)
  have s: "setItem f k v w =
             write_cookie
               (STORAGE_NAME @ js ''='' @ JSON_stringify (JObj [(k, JStr v)]) @ js '';''
                @ (js ''expires='' @ toUTCString (clock w + 604800000)) @ js '';path=/'')
               (log CookieGet (log DateNow w))"
    by (simp add: setItem_cookie [OF assms(1,2)] cookie_setItem_cases r js_assign_def o
             del: JSON_stringify.simps)
  show "fst (setItem f k v w) = Inr ()"
    by (simp add: s write_cookie_def)
  show "cookie_jar (snd (setItem f k v w)) = [(STORAGE_NAME, JSON_stringify (JObj [(k, JStr v)]))]"
    by (simp add: s jar_write_cookie jar_log assms(4) assign_cookie_object [OF assms(5)]
          jar_store_single del: JSON_stringify.simps)
  show "cookie_backend f (snd (setItem f k v w))"
    by (rule cookie_backend_heap [OF _ assms(1)]) (simp add: s heap_write_cookie heap_log)
qed

lemma cookie_remove_only:
  assumes "cookie_backend f w" "\<not> not_allowed f k"
    and "cookie_jar w = [(STORAGE_NAME, JSON_stringify (JObj [(k, JStr v)]))]"
    and "0x3B \<notin> set (JSON_stringify (JObj [(k, JStr v)]))"
    and "0x25 \<notin> set (JSON_stringify (JObj [(k, JStr v)]))"
  shows "fst (removeItem f k w) = Inr ()"
    and "cookie_jar (snd (removeItem f k w)) = [(STORAGE_NAME, js ''{}'')]"
    and "cookie_backend f (snd (removeItem f k w))"
proof -
  let ?T = "JSON_stringify (JObj [(k, JStr v)])"
  have r: "fst (CookieStorage_getItem STORAGE_NAME w) = Inr ?T"
    using assms(3,5,4) by (rule cookie_read_single)
  have "strings_only [(k, JStr v)]"
    by (simp add: strings_only_def is_string_def)
  hence p: "JSON_parse ?T = Inr (JObj [(k, JStr v)])"
    using JSON_parse_stringify [of "[(k, JStr v)]"] by (simp add: define_all_def obj_define_empty)
  have e: "JSON_stringify (JObj []) = js ''{}''"
    by (simp add: js_def)
  have semi: "0x3B \<notin> set (JSON_stringify (JObj []))"
    by simp
  have s: "removeItem f k w =
             write_cookie
               (STORAGE_NAME @ js ''='' @ JSON_stringify (JObj []) @ js '';''
                @ (js ''expires='' @ toUTCString (clock w + 604800000)) @ js '';path=/'')
               (log CookieGet (log DateNow w))"
    by (simp add: removeItem_cookie [OF assms(1,2)] cookie_removeItem_cases r p js_delete_def
          obj_delete_def stringify_object_nonempty del: JSON_stringify.simps)
  show "fst (removeItem f k w) = Inr ()"
    by (simp add: s write_cookie_def)
  show "cookie_jar (snd (removeItem f k w)) = [(STORAGE_NAME, js ''{}'')]"
    by (simp add: s jar_write_cookie jar_log assms(3) assign_cookie_object [OF semi]
          jar_store_single del: JSON_stringify.simps) (simp add: js_def)
  show "cookie_backend f (snd (removeItem f k w))"
    by (rule cookie_backend_heap [OF _ assms(1)]) (simp add: s heap_write_cookie heap_log)
qed

lemma cookie_read_braces:
  assumes "cookie_backend f w" "\<not> not_allowed f k" "cookie_jar w = [(STORAGE_NAME, js ''{}'')]"
  shows "fst (getItem f k w) = Inr (Value (JStr (js ''{}'')))"
    and "fst (CookieStorage_getItem STORAGE_NAME w) = Inr (js ''{}'')"
proof -
  show r: "fst (CookieStorage_getItem STORAGE_NAME w) = Inr (js ''{}'')"
    using assms(3) by (rule cookie_read_single) (simp_all add: js_def)
  show "fst (getItem f k w) = Inr (Value (JStr (js ''{}'')))"
    by (simp add: getItem_cookie [OF assms(1,2)] r)
qed

lemma cookie_page_facts:
  "cookie_backend (fst cookie_page) (snd cookie_page)"
  "cookie_jar (snd cookie_page) = []"
  "\<not> not_allowed (fst cookie_page) k"
  unfolding cookie_page_def
  using setStorage_cookie [OF wf_fresh_world, of "createClientStorage None" 0]
  by (simp_all add: not_allowed_setStorage) (simp_all add: fresh_world_def not_allowed_def createClientStorage_def)


subsection \<open>Concrete texts\<close>

lemma year_month_day_7: "year_month_day 7 = (1970, 1, 8)"
  by code_simp

lemma toUTCString_week: "toUTCString 604800000 = js ''Thu, 08 Jan 1970 00:00:00 GMT''"
  by (simp add: toUTCString_def year_month_day_7 two_digits_def padded_year_def js_def)

lemma plain_a1:
  "0x3B \<notin> set (JSON_stringify (JObj [(js ''a'', JStr (js ''1''))]))"
  "0x25 \<notin> set (JSON_stringify (JObj [(js ''a'', JStr (js ''1''))]))"
  "JSON_stringify (JObj [(js ''a'', JStr (js ''1''))]) = [0x7B, 0x22, 0x61, 0x22, 0x3A, 0x22, 0x31, 0x22, 0x7D]"
  by (simp_all add: js_def QuoteJSONString_def quote_unit_def is_high_surrogate_def is_low_surrogate_def)

lemma plain_name_alice:
  "0x3B \<notin> set (JSON_stringify (JObj [(js ''name'', JStr (js ''Alice''))]))"
  "0x25 \<notin> set (JSON_stringify (JObj [(js ''name'', JStr (js ''Alice''))]))"
  by (simp_all add: js_def QuoteJSONString_def quote_unit_def is_high_surrogate_def is_low_surrogate_def)

lemma parse_abc: "JSON_parse (js ''abc'') = Inl SyntaxError"
  by (simp add: JSON_parse_def js_def skip_ws_def is_ws_def parse_number_def is_digit_def)

lemma cookie_after_set_facts:
  "fst (setItem (fst cookie_page) (js ''a'') (js ''1'') (snd cookie_page)) = Inr ()"
  "cookie_jar cookie_after_set = [(STORAGE_NAME, JSON_stringify (JObj [(js ''a'', JStr (js ''1''))]))]"
  "cookie_backend (fst cookie_page) cookie_after_set"
  unfolding cookie_after_set_def
  by (rule cookie_first_set [OF cookie_page_facts(1) cookie_page_facts(3) not_proto(1)
        cookie_page_facts(2) plain_a1(1)])+

lemma cookie_after_remove_facts:
  "fst (removeItem (fst cookie_page) (js ''a'') cookie_after_set) = Inr ()"
  "cookie_jar cookie_after_remove = [(STORAGE_NAME, js ''{}'')]"
  "cookie_backend (fst cookie_page) cookie_after_remove"
  unfolding cookie_after_remove_def
  by (rule cookie_remove_only [OF cookie_after_set_facts(3) cookie_page_facts(3)
        cookie_after_set_facts(2) plain_a1(1) plain_a1(2)])+

lemma parse_null: "JSON_parse (js ''null'') = Inr JNull"
  by (simp add: JSON_parse_def js_def skip_ws_def is_ws_def)

lemma percent_text:
  "0x3B \<notin> set (JSON_stringify (JObj [(js ''a'', JStr (js ''100%''))]))"
  "JSON_stringify (JObj [(js ''a'', JStr (js ''100%''))])
     = [0x7B, 0x22, 0x61, 0x22, 0x3A, 0x22, 0x31, 0x30, 0x30] @ 0x25 # [0x22, 0x7D]"
  by (simp_all add: js_def QuoteJSONString_def quote_unit_def is_high_surrogate_def is_low_surrogate_def)

lemma cookie_after_percent_facts:
  "fst (setItem (fst cookie_page) (js ''a'') (js ''100%'') (snd cookie_page)) = Inr ()"
  "cookie_jar cookie_after_percent = [(STORAGE_NAME, JSON_stringify (JObj [(js ''a'', JStr (js ''100%''))]))]"
  "cookie_backend (fst cookie_page) cookie_after_percent"
  unfolding cookie_after_percent_def
  by (rule cookie_first_set [OF cookie_page_facts(1) cookie_page_facts(3) not_proto(1)
        cookie_page_facts(2) percent_text(1)])+

lemma cookie_read_percent:
  "fst (CookieStorage_getItem STORAGE_NAME cookie_after_percent) = Inl URIError"
proof -
  have "Decode ((STORAGE_NAME @ 0x3D # [0x7B, 0x22, 0x61, 0x22, 0x3A, 0x22, 0x31, 0x30, 0x30]) @ 0x25 # [0x22, 0x7D]) 0
          = Inl URIError"
    by (rule Decode_bad_escape) (simp_all add: storage_name_facts(3) hex_val_def)
  hence "decodeURIComponent (join_cookies (cookie_jar cookie_after_percent)) = Inl URIError"
    by (simp add: decodeURIComponent_def cookie_after_percent_facts(2) percent_text(2)
          del: JSON_stringify.simps)
  thus ?thesis
    by (simp add: CookieStorage_getItem_def)
qed




subsection \<open>What \<open>getItem\<close> returns on the cookie backend\<close>






subsection \<open>\<open>CookieStorage.setItem\<close>\<close>

text \<open>
  C5, as amended. \<open>CookieStorage.setItem(key, value)\<close> reads the clock, then the cookie.
  When the read throws (\<open>URIError\<close>), the call throws the same and writes nothing. When
  the cookie reads as the empty string it starts from the empty object; when it reads
  as the JSON text of an object whose values are strings it starts from that object.
  In these two cases it assigns \<open>object[key] = value\<close> and writes \<open>document.cookie\<close>
  with the text \<open>name=JSON;expires=DATE;path=/\<close>, where \<open>DATE\<close> is the UTC string of the
  clock plus 7 days; for a key other than \<open>__proto__\<close> the assignment stores the value
  under the key. When the cookie reads as text that \<open>JSON.parse\<close> rejects, the call
  throws \<open>SyntaxError\<close>, and when it reads as the JSON text \<open>null\<close>, \<open>TypeError\<close>; in
  both cases after the read, and it writes nothing. The statement says nothing of a
  cookie that reads as any other JSON text.
\<close>

theorem cookie_write:
  "(\<forall>e. fst (CookieStorage_getItem n w) = Inl e \<longrightarrow>
        CookieStorage_setItem n key val w = (Inl e, log CookieGet (log DateNow w)))
   \<and> (fst (CookieStorage_getItem n w) = Inr [] \<longrightarrow>
        CookieStorage_setItem n key val w =
          write_cookie
            (n @ js ''='' @ JSON_stringify (JObj (obj_assign [] key val)) @ js '';''
             @ js ''expires='' @ toUTCString (clock w + 7 * 24 * 60 * 60 * 1000) @ js '';path=/'')
            (log CookieGet (log DateNow w)))
   \<and> (\<forall>s ps. fst (CookieStorage_getItem n w) = Inr s \<and> s \<noteq> []
               \<and> JSON_parse s = Inr (JObj ps) \<and> strings_only ps \<longrightarrow>
          CookieStorage_setItem n key val w =
            write_cookie
              (n @ js ''='' @ JSON_stringify (JObj (obj_assign ps key val)) @ js '';''
               @ js ''expires='' @ toUTCString (clock w + 7 * 24 * 60 * 60 * 1000) @ js '';path=/'')
              (log CookieGet (log DateNow w)))
   \<and> (\<forall>s. fst (CookieStorage_getItem n w) = Inr s \<and> s \<noteq> [] \<and> JSON_parse s = Inl SyntaxError \<longrightarrow>
          CookieStorage_setItem n key val w = (Inl SyntaxError, log CookieGet (log DateNow w)))
   \<and> (\<forall>s. fst (CookieStorage_getItem n w) = Inr s \<and> s \<noteq> [] \<and> JSON_parse s = Inr JNull \<longrightarrow>
          CookieStorage_setItem n key val w = (Inl TypeError, log CookieGet (log DateNow w)))
   \<and> (\<forall>ps. key \<noteq> js ''__proto__'' \<longrightarrow> map_of (obj_assign ps key val) key = Some (JStr val))"
  by (auto simp: cookie_setItem_cases js_assign_def obj_assign_define map_of_obj_define
      simp del: JSON_stringify.simps)

theorem cookie_write_witness:
  "fst (CookieStorage_getItem STORAGE_NAME cookie_after_percent) = Inl URIError
   \<and> CookieStorage_setItem STORAGE_NAME (js ''b'') (js ''2'') cookie_after_percent
       = (Inl URIError, log CookieGet (log DateNow cookie_after_percent))
   \<and> fst (CookieStorage_getItem STORAGE_NAME (fresh_world 0)) = Inr []
   \<and> CookieStorage_setItem STORAGE_NAME (js ''a'') (js ''1'') (fresh_world 0)
       = write_cookie
           (STORAGE_NAME @ js ''='' @ [0x7B, 0x22, 0x61, 0x22, 0x3A, 0x22, 0x31, 0x22, 0x7D] @ js '';''
            @ js ''expires='' @ js ''Thu, 08 Jan 1970 00:00:00 GMT'' @ js '';path=/'')
           (log CookieGet (log DateNow (fresh_world 0)))
   \<and> fst (CookieStorage_getItem STORAGE_NAME cookie_after_set) = Inr [0x7B, 0x22, 0x61, 0x22, 0x3A, 0x22, 0x31, 0x22, 0x7D]
   \<and> JSON_parse [0x7B, 0x22, 0x61, 0x22, 0x3A, 0x22, 0x31, 0x22, 0x7D] = Inr (JObj [(js ''a'', JStr (js ''1''))])
   \<and> strings_only [(js ''a'', JStr (js ''1''))]
   \<and> CookieStorage_setItem STORAGE_NAME (js ''b'') (js ''2'') cookie_after_set
       = write_cookie
           (STORAGE_NAME @ js ''='' @ JSON_stringify (JObj (obj_assign [(js ''a'', JStr (js ''1''))] (js ''b'') (js ''2''))) @ js '';''
            @ js ''expires='' @ toUTCString (clock cookie_after_set + 7 * 24 * 60 * 60 * 1000) @ js '';path=/'')
           (log CookieGet (log DateNow cookie_after_set))
   \<and> fst (CookieStorage_getItem STORAGE_NAME corrupt_cookie_world) = Inr (js ''abc'')
   \<and> JSON_parse (js ''abc'') = Inl SyntaxError
   \<and> CookieStorage_setItem STORAGE_NAME (js ''a'') (js ''1'') corrupt_cookie_world
       = (Inl SyntaxError, log CookieGet (log DateNow corrupt_cookie_world))
   \<and> fst (CookieStorage_getItem STORAGE_NAME null_cookie_world) = Inr (js ''null'')
   \<and> JSON_parse (js ''null'') = Inr JNull
   \<and> CookieStorage_setItem STORAGE_NAME (js ''a'') (js ''1'') null_cookie_world
       = (Inl TypeError, log CookieGet (log DateNow null_cookie_world))
   \<and> map_of (obj_assign [] (js ''a'') (js ''1'')) (js ''a'') = Some (JStr (js ''1''))"
proof -
  have r0: "fst (CookieStorage_getItem STORAGE_NAME (fresh_world 0)) = Inr []"
    by (rule cookie_read_empty) (simp add: fresh_world_def)
  have o: "JSON_stringify (JObj (obj_assign [] (js ''a'') (js ''1''))) = [0x7B, 0x22, 0x61, 0x22, 0x3A, 0x22, 0x31, 0x22, 0x7D]"
    using plain_a1(3) by (simp add: obj_assign_define not_proto obj_define_empty)
  have c0: "clock (fresh_world 0) + 7 * 24 * 60 * 60 * 1000 = 604800000"
    by (simp add: fresh_world_def)
  have r1: "fst (CookieStorage_getItem STORAGE_NAME cookie_after_set) = Inr [0x7B, 0x22, 0x61, 0x22, 0x3A, 0x22, 0x31, 0x22, 0x7D]"
    using cookie_read_single [OF cookie_after_set_facts(2) plain_a1(2) plain_a1(1)]
    by (simp only: plain_a1(3))
  have so: "strings_only [(js ''a'', JStr (js ''1''))]"
    by (simp add: strings_only_def is_string_def)
  hence "JSON_parse (JSON_stringify (JObj [(js ''a'', JStr (js ''1''))])) = Inr (JObj [(js ''a'', JStr (js ''1''))])"
    using JSON_parse_stringify [of "[(js ''a'', JStr (js ''1''))]"]
    by (simp add: define_all_def obj_define_empty)
  hence p1: "JSON_parse [0x7B, 0x22, 0x61, 0x22, 0x3A, 0x22, 0x31, 0x22, 0x7D] = Inr (JObj [(js ''a'', JStr (js ''1''))])"
    by (simp only: plain_a1(3))
  have r2: "fst (CookieStorage_getItem STORAGE_NAME corrupt_cookie_world) = Inr (js ''abc'')"
    by (rule cookie_read_single) (simp_all add: corrupt_cookie_world_def fresh_world_def js_def)
  have r3: "fst (CookieStorage_getItem STORAGE_NAME null_cookie_world) = Inr (js ''null'')"
    by (rule cookie_read_single) (simp_all add: null_cookie_world_def fresh_world_def js_def)
  have ne: "js ''abc'' \<noteq> []" "[0x7B, 0x22, 0x61, 0x22, 0x3A, 0x22, 0x31, 0x22, 0x7D] \<noteq> ([] :: jsstring)"
    "js ''null'' \<noteq> []"
    by (simp_all add: js_def)
  note t0 = cookie_write [of STORAGE_NAME "fresh_world 0" "js ''a''" "js ''1''"]
  note t1 = cookie_write [of STORAGE_NAME cookie_after_set "js ''b''" "js ''2''"]
  note t2 = cookie_write [of STORAGE_NAME corrupt_cookie_world "js ''a''" "js ''1''"]
  note t3 = cookie_write [of STORAGE_NAME null_cookie_world "js ''a''" "js ''1''"]
  note t4 = cookie_write [of STORAGE_NAME cookie_after_percent "js ''b''" "js ''2''"]
  from t0 r0 have a: "CookieStorage_setItem STORAGE_NAME (js ''a'') (js ''1'') (fresh_world 0)
       = write_cookie
           (STORAGE_NAME @ js ''='' @ [0x7B, 0x22, 0x61, 0x22, 0x3A, 0x22, 0x31, 0x22, 0x7D] @ js '';''
            @ js ''expires='' @ js ''Thu, 08 Jan 1970 00:00:00 GMT'' @ js '';path=/'')
           (log CookieGet (log DateNow (fresh_world 0)))"
    by (simp only: o c0 toUTCString_week simp_thms)
  from t1 r1 ne(2) p1 so have b: "CookieStorage_setItem STORAGE_NAME (js ''b'') (js ''2'') cookie_after_set
       = write_cookie
           (STORAGE_NAME @ js ''='' @ JSON_stringify (JObj (obj_assign [(js ''a'', JStr (js ''1''))] (js ''b'') (js ''2''))) @ js '';''
            @ js ''expires='' @ toUTCString (clock cookie_after_set + 7 * 24 * 60 * 60 * 1000) @ js '';path=/'')
           (log CookieGet (log DateNow cookie_after_set))"
    by blast
  from t2 r2 ne(1) parse_abc have c: "CookieStorage_setItem STORAGE_NAME (js ''a'') (js ''1'') corrupt_cookie_world
       = (Inl SyntaxError, log CookieGet (log DateNow corrupt_cookie_world))"
    by blast
  from t3 r3 ne(3) parse_null have e: "CookieStorage_setItem STORAGE_NAME (js ''a'') (js ''1'') null_cookie_world
       = (Inl TypeError, log CookieGet (log DateNow null_cookie_world))"
    by blast
  from t4 cookie_read_percent have f: "CookieStorage_setItem STORAGE_NAME (js ''b'') (js ''2'') cookie_after_percent
       = (Inl URIError, log CookieGet (log DateNow cookie_after_percent))"
    by blast
  from t0 not_proto(1) have d: "map_of (obj_assign [] (js ''a'') (js ''1'')) (js ''a'') = Some (JStr (js ''1''))"
    by blast
  from cookie_read_percent f r0 a r1 p1 so b r2 parse_abc c r3 parse_null e d
  show ?thesis by (simp only: simp_thms)
qed


text \<open>
  C5 as stated fails on a cookie that is not valid JSON: on the page whose cookie holds
  \<open>abc\<close>, \<open>setItem('a', '1')\<close> throws \<open>SyntaxError\<close> and the cookie stays \<open>abc\<close>.
\<close>

theorem unparsable_cookie_fails:
  "fst (CookieStorage_setItem STORAGE_NAME (js ''a'') (js ''1'') corrupt_cookie_world) = Inl SyntaxError
   \<and> cookie_jar (snd (CookieStorage_setItem STORAGE_NAME (js ''a'') (js ''1'') corrupt_cookie_world))
       = [(STORAGE_NAME, js ''abc'')]"
proof -
  have r: "fst (CookieStorage_getItem STORAGE_NAME corrupt_cookie_world) = Inr (js ''abc'')"
    by (rule cookie_read_single) (simp_all add: corrupt_cookie_world_def fresh_world_def js_def)
  have ne: "js ''abc'' \<noteq> []" by (simp add: js_def)
  have "CookieStorage_setItem STORAGE_NAME (js ''a'') (js ''1'') corrupt_cookie_world
          = (Inl SyntaxError, log CookieGet (log DateNow corrupt_cookie_world))"
    by (simp add: cookie_setItem_cases r ne parse_abc)
  thus ?thesis
    by (simp add: jar_log) (simp add: corrupt_cookie_world_def)
qed


subsection \<open>Set, remove, get on the cookie backend\<close>

text \<open>
  C3. On a fresh page with the cookie backend: \<open>setItem('a', '1')\<close> succeeds and the
  cookie's value is the text \<open>{"a":"1"}\<close>, which parses as the object with \<open>a\<close> bound
  to \<open>1\<close>, and the raw \<open>CookieStorage.getItem()\<close> returns that text. After
  \<open>removeItem('a')\<close> the raw read returns \<open>{}\<close>, and so does the facade's
  \<open>getItem('a')\<close>: the string \<open>{}\<close>, not \<open>null\<close>.
\<close>

theorem cookie_scenario:
  "fst (setItem (fst cookie_page) (js ''a'') (js ''1'') (snd cookie_page)) = Inr ()
   \<and> cookie_jar cookie_after_set = [(STORAGE_NAME, [0x7B, 0x22, 0x61, 0x22, 0x3A, 0x22, 0x31, 0x22, 0x7D])]
   \<and> JSON_parse [0x7B, 0x22, 0x61, 0x22, 0x3A, 0x22, 0x31, 0x22, 0x7D] = Inr (JObj [(js ''a'', JStr (js ''1''))])
   \<and> fst (CookieStorage_getItem STORAGE_NAME cookie_after_set)
       = Inr (JSON_stringify (JObj [(js ''a'', JStr (js ''1''))]))
   \<and> fst (removeItem (fst cookie_page) (js ''a'') cookie_after_set) = Inr ()
   \<and> fst (CookieStorage_getItem STORAGE_NAME cookie_after_remove) = Inr (js ''{}'')
   \<and> fst (getItem (fst cookie_page) (js ''a'') cookie_after_remove) = Inr (Value (JStr (js ''{}'')))"
proof -
  have "strings_only [(js ''a'', JStr (js ''1''))]"
    by (simp add: strings_only_def is_string_def)
  hence p: "JSON_parse (JSON_stringify (JObj [(js ''a'', JStr (js ''1''))])) = Inr (JObj [(js ''a'', JStr (js ''1''))])"
    using JSON_parse_stringify [of "[(js ''a'', JStr (js ''1''))]"]
    by (simp add: define_all_def obj_define_empty)
  have r: "fst (CookieStorage_getItem STORAGE_NAME cookie_after_set)
             = Inr (JSON_stringify (JObj [(js ''a'', JStr (js ''1''))]))"
    by (rule cookie_read_single [OF cookie_after_set_facts(2) plain_a1(2) plain_a1(1)])
  note g = cookie_read_braces [OF cookie_after_remove_facts(3) cookie_page_facts(3) cookie_after_remove_facts(2)]
  from cookie_after_set_facts(1,2) p r cookie_after_remove_facts(1) g
  show ?thesis by (simp only: plain_a1(3) simp_thms)
qed


text \<open>
  C4. The same on the key \<open>name\<close> and the value \<open>Alice\<close>: on the cookie backend,
  after \<open>setItem\<close> and \<open>removeItem\<close>, \<open>getItem\<close> returns the string \<open>{}\<close>, not
  \<open>null\<close>.
\<close>

theorem cookie_removal_reads_payload:
  "fst (getItem (fst cookie_page) (js ''name'')
          (snd (removeItem (fst cookie_page) (js ''name'')
                  (snd (setItem (fst cookie_page) (js ''name'') (js ''Alice'') (snd cookie_page))))))
     = Inr (Value (JStr (js ''{}'')))"
proof -
  note s = cookie_first_set [OF cookie_page_facts(1) cookie_page_facts(3) not_proto(2)
        cookie_page_facts(2) plain_name_alice(1)]
  note r = cookie_remove_only [OF s(3) cookie_page_facts(3) s(2) plain_name_alice(1) plain_name_alice(2)]
  show ?thesis
    by (rule cookie_read_braces(1) [OF r(3) cookie_page_facts(3) r(2)])
qed

section \<open>Removal on the memory, persistent and session backends\<close>

text \<open>
  On the three other backends \<open>setItem\<close>, \<open>removeItem\<close>, \<open>getItem\<close> of one key ends
  in \<open>null\<close>: on a native store for a key that \<open>Object.prototype\<close> does not define
  (for those, reading the parsed object gives the inherited member), on the memory
  store for every key.
\<close>

lemma strings_only_define:
  assumes "strings_only ps" "is_string v"
  shows "strings_only (obj_define ps k v)"
  unfolding strings_only_def list_all_iff
proof (clarify)
  fix k' v' assume "(k', v') \<in> set (obj_define ps k v)"
  from obj_define_entry [OF this] assms show "is_string v'"
    by (auto simp: strings_only_def list_all_iff)
qed

lemma strings_only_define_all:
  "strings_only acc \<Longrightarrow> strings_only ps \<Longrightarrow> strings_only (define_all acc ps)"
proof (induction ps arbitrary: acc)
  case Nil
  thus ?case by (simp add: define_all_def)
next
  case (Cons p ps)
  obtain k v where p: "p = (k, v)" by (cases p)
  from Cons.prems(2) have v: "is_string v" and r: "strings_only ps"
    by (simp_all add: strings_only_def p)
  have "define_all acc (p # ps) = define_all (obj_define acc k v) ps"
    by (simp add: define_all_def p)
  with Cons.IH [OF strings_only_define [OF Cons.prems(1) v] r] show ?case by simp
qed

lemma removeItem_native:
  assumes "storage f = Native i" "\<not> direct f" "\<not> not_allowed f k"
    and "native i w STORAGE_NAME = Some (JSON_stringify (JObj ps))" "strings_only ps"
  shows "removeItem f k w =
           native_setItem i STORAGE_NAME
             (JSON_stringify (JObj (obj_delete (define_all [] ps) k)))
             (log (NativeGet i STORAGE_NAME) w)"
  using assms JSON_parse_stringify [OF assms(5)]
  by (simp add: removeItem_def storage_getItem_def storage_setItem_def native_getItem_def
        js_delete_def stringify_object_nonempty del: JSON_stringify.simps)

lemma removal_on_native:
  assumes "storage f = Native i" "\<not> direct f" "\<not> not_allowed f k"
    and "k \<notin> set object_prototype_names" "root_ok (native i w STORAGE_NAME)"
  shows "fst (getItem f k (snd (removeItem f k (snd (setItem f k v w))))) = Inr (Value JNull)"
proof -
  have np: "k \<noteq> js ''__proto__''"
    using assms(4) by (auto simp: object_prototype_names_def)
  let ?ps = "obj_define (root_object (native i w STORAGE_NAME)) k (JStr v)"
  let ?w1 = "snd (setItem f k v w)"
  let ?qs = "obj_delete (define_all [] ?ps) k"
  have s: "setItem f k v w =
           native_setItem i STORAGE_NAME (JSON_stringify (JObj ?ps)) (log (NativeGet i STORAGE_NAME) w)"
    using assms(1-3) np assms(5) by (rule setItem_native)
  have so: "strings_only ?ps"
    using assms(5) by (intro strings_only_obj_define strings_only_root_object)
  have n1: "native i ?w1 STORAGE_NAME = Some (JSON_stringify (JObj ?ps))"
    unfolding s by (simp add: native_setItem_def native_log native_native_update del: JSON_stringify.simps)
  have r: "removeItem f k ?w1 =
             native_setItem i STORAGE_NAME (JSON_stringify (JObj ?qs)) (log (NativeGet i STORAGE_NAME) ?w1)"
    using assms(1-3) n1 so by (rule removeItem_native)
  have "strings_only []" by (simp add: strings_only_def)
  hence sq: "strings_only ?qs"
    using so by (intro strings_only_obj_delete strings_only_define_all)
  have n2: "native i (snd (removeItem f k ?w1)) STORAGE_NAME = Some (JSON_stringify (JObj ?qs))"
    unfolding r by (simp add: native_setItem_def native_log native_native_update del: JSON_stringify.simps)
  have "fst (getItem f k (snd (removeItem f k ?w1))) = Inr (or_null (obj_get (define_all [] ?qs) k))"
    using assms(1-3) n2 sq by (rule getItem_native)
  moreover have "obj_get (define_all [] ?qs) k = Undefined"
    using assms(4) by (simp add: obj_get_def lookup_after_delete)
  ultimately show ?thesis by (simp add: or_null_def truthy_def)
qed

lemma removal_on_memory:
  assumes "memory_backend f w" "\<not> not_allowed f k"
  shows "fst (getItem f k (snd (removeItem f k (snd (setItem f k v w))))) = Inr (Value JNull)"
proof -
  from assms(1) obtain a m where a: "storage f = Instance a"
      "a < length (heap w)" "heap w ! a = MemoryStorage_obj m" "direct f"
    by (auto simp: memory_backend_def direct_def split: storage_ref.splits dest: is_memoryE)
  have s: "setItem f k v w = MemoryStorage_setItem a m k v w"
    using a assms(2) by (simp add: setItem_def storage_setItem_def)
  let ?w1 = "snd (setItem f k v w)"
  have h1: "a < length (heap ?w1)" "heap ?w1 ! a = MemoryStorage_obj (m(k \<mapsto> v))"
    using a by (simp_all add: s MemoryStorage_setItem_def log_def)
  have r: "removeItem f k ?w1 = MemoryStorage_removeItem a (m(k \<mapsto> v)) k ?w1"
    using a h1 assms(2) by (simp add: removeItem_def storage_removeItem_def)
  let ?w2 = "snd (removeItem f k ?w1)"
  have h2: "a < length (heap ?w2)" "heap ?w2 ! a = MemoryStorage_obj ((m(k \<mapsto> v))(k := None))"
    using h1 by (simp_all add: r MemoryStorage_removeItem_def log_def)
  show ?thesis
    using a h2 assms(2)
    by (simp add: getItem_def storage_getItem_def MemoryStorage_getItem_def string_or_null_def)
qed

end
